theory Spec2Isabelle
  imports Complex_Main
begin

section \<open>JavaScript strings\<close>

text \<open>
  Strings are lists of characters. \<open>toLowerCase\<close> maps the ASCII capitals to
  their lower-case letters and leaves every other character alone; the white space
  of \<open>trim\<close> and of the pattern \<open>\s+\<close> is the ASCII white space (space, tab,
  line feed, vertical tab, form feed, carriage return).
\<close>

definition lowerChar :: "char \<Rightarrow> char" where
  "lowerChar c =
     (case map_of (zip ''ABCDEFGHIJKLMNOPQRSTUVWXYZ'' ''abcdefghijklmnopqrstuvwxyz'') c of
        Some d \<Rightarrow> d
      | None \<Rightarrow> c)"

definition toLowerCase :: "string \<Rightarrow> string" where
  "toLowerCase s = map lowerChar s"

definition isSpace :: "char \<Rightarrow> bool" where
  "isSpace c = (c \<in> set [CHR '' '', CHR 0x09, CHR 0x0A, CHR 0x0B, CHR 0x0C, CHR 0x0D])"

definition trim :: "string \<Rightarrow> string" where
  "trim s = rev (dropWhile isSpace (rev (dropWhile isSpace s)))"

text \<open>
  \<open>s.split(/\s+/)\<close>: the pieces between the maximal runs of white space. The
  empty string gives one empty piece, and a string that starts or ends with white
  space gives an empty first or last piece.
\<close>

function splitSpaces :: "string \<Rightarrow> string list" where
  "splitSpaces s =
     (let w = takeWhile (\<lambda>c. \<not> isSpace c) s;
          r = dropWhile (\<lambda>c. \<not> isSpace c) s
      in if r = [] then [w] else w # splitSpaces (dropWhile isSpace r))"
  by pat_completeness auto
termination
proof (relation "measure length")
  show "wf (measure length)" by simp
next
  fix s :: string and w r
  assume r: "r = dropWhile (\<lambda>c. \<not> isSpace c) s" and ne: "r \<noteq> []"
  have "length (dropWhile isSpace r) < length r"
  proof (cases r)
    case Nil
    with ne show ?thesis by simp
  next
    case (Cons c cs)
    with r have "isSpace c"
      by (metis hd_dropWhile list.sel(1) ne)
    with Cons show ?thesis
      by (simp add: le_imp_less_Suc length_dropWhile_le)
  qed
  moreover have "length r \<le> length s"
    unfolding r by (rule length_dropWhile_le)
  ultimately show "(dropWhile isSpace r, s) \<in> measure length" by simp
qed

declare splitSpaces.simps [simp del]

fun join :: "string \<Rightarrow> string list \<Rightarrow> string" where
  "join sep [] = []"
| "join sep [x] = x"
| "join sep (x # y # ys) = x @ sep @ join sep (y # ys)"

section \<open>Values and nodes\<close>

text \<open>
  A JavaScript number is a double: a finite value, one of the two infinities, or
  NaN. A finite double is kept as the rational it is equal to; the two zeros are
  one value, since the tracker only tests and prints them.
\<close>

datatype jsnum = Fin rat | PosInf | NegInf | NaN

datatype jsval =
    Undefined
  | Null
  | Bool bool
  | Num jsnum
  | Str string
  | Arr "jsval list"
  | Obj "(string \<times> jsval) list"

datatype error = TypeError

text \<open>
  \<open>className\<close> is a string on HTML elements, an object (an animated string) on
  SVG elements, and absent on nodes that are not elements.
\<close>

datatype class_attr = ClassAbsent | ClassString string | ClassObject

text \<open>
  The properties of a node that the tracker reads. A property that is
  \<open>undefined\<close> or \<open>null\<close> on the node is \<open>None\<close>. \<open>uid\<close> is the identity of
  the node: two references are the same object exactly when their \<open>uid\<close>s are
  equal.
\<close>

record props =
  uid :: nat
  tagName :: "string option"
  type_prop :: "string option"
  role_attr :: "string option"
  contentEditable :: "string option"
  id_prop :: "string option"
  className :: class_attr
  name_prop :: "string option"
  textContent :: "string option"
  dataset :: "(string \<times> string) list option"
  value_prop :: "string option"
  checked :: "bool option"
  selectedIndex :: "int option"
  selectedOptions :: "string list option"

datatype node = Node (props: props) (parentElement: "node option")

text \<open>Truthiness of an optional string: \<open>undefined\<close>, \<open>null\<close> and \<open>''\<close> are falsy.\<close>

fun truthy :: "string option \<Rightarrow> bool" where
  "truthy None = False"
| "truthy (Some s) = (s \<noteq> [])"

section \<open>Element classifier\<close>

text \<open>
  The object literal \<open>inputTypes\<close> of \<open>getElementType\<close>, as an association
  list. The lookup \<open>inputTypes[type]\<close> is on the own keys of the literal: the
  \<open>type\<close> of an input element is one of the input type keywords, and none of
  them names a property that the literal inherits.
\<close>

definition inputTypes :: "(string \<times> string) list" where
  "inputTypes =
     [(''checkbox'', ''checkbox''),
      (''radio'', ''radio''),
      (''submit'', ''submit_button''),
      (''button'', ''input_button''),
      (''file'', ''file_upload''),
      (''range'', ''slider''),
      (''color'', ''color_picker''),
      (''date'', ''date_picker''),
      (''time'', ''time_picker''),
      (''search'', ''search_input''),
      (''tel'', ''phone_input''),
      (''url'', ''url_input''),
      (''email'', ''email_input''),
      (''number'', ''number_input''),
      (''password'', ''password_input'')]"

definition getElementType :: "node option \<Rightarrow> string" where
  "getElementType element =
     (case element of
        None \<Rightarrow> ''unknown''
      | Some (Node e par) \<Rightarrow>
          if \<not> truthy (tagName e) then ''unknown''
          else
            let tag = toLowerCase (the (tagName e));
                type = (if truthy (type_prop e) then toLowerCase (the (type_prop e)) else '''');
                role = role_attr e;
                ce = (contentEditable e = Some ''true'')
            in
              if tag = ''button'' then ''button''
              else if tag = ''a'' then ''link''
              else if tag = ''img'' then ''image''
              else if tag = ''video'' then ''video''
              else if tag = ''audio'' then ''audio''
              else if tag = ''canvas'' then ''canvas''
              else if tag = ''svg'' then ''svg''
              else if tag = ''select'' then ''dropdown''
              else if tag = ''textarea'' then ''textarea''
              else if ce then ''contenteditable''
              else if tag = ''input'' then
                (case map_of inputTypes type of
                   Some t \<Rightarrow> t
                 | None \<Rightarrow> ''text_input'')
              else if tag \<in> set [''h1'', ''h2'', ''h3'', ''h4'', ''h5'', ''h6''] then ''heading''
              else if tag = ''form'' then ''form''
              else if tag = ''table'' then ''table''
              else if tag = ''nav'' then ''navigation''
              else if tag = ''iframe'' then ''iframe''
              else if truthy role then tag @ ''_'' @ the role
              else tag)"

text \<open>The class part of an identifier: all the class names, joined by dots.\<close>

definition classesOf :: "class_attr \<Rightarrow> string" where
  "classesOf c =
     (case c of
        ClassString s \<Rightarrow> (if s \<noteq> [] then ''.'' @ join ''.'' (splitSpaces (trim s)) else '''')
      | _ \<Rightarrow> '''')"

definition dataAttrsOf :: "(string \<times> string) list option \<Rightarrow> string list" where
  "dataAttrsOf d =
     (case d of
        None \<Rightarrow> []
      | Some kvs \<Rightarrow> map (\<lambda>(k, v). ''[data-'' @ k @ ''=\"'' @ v @ ''\"]'') kvs)"

definition getElementIdentifier :: "node option \<Rightarrow> string" where
  "getElementIdentifier element =
     (case element of
        None \<Rightarrow> ''unknown''
      | Some (Node e par) \<Rightarrow>
          let ident = (if truthy (id_prop e) then ''#'' @ the (id_prop e) else '''');
              classes = classesOf (className e);
              tag = (if truthy (tagName e) then toLowerCase (the (tagName e)) else '''');
              nm = (if truthy (name_prop e) then ''[name=\"'' @ the (name_prop e) @ ''\"]'' else '''');
              text = (if truthy (textContent e)
                      then '' \"'' @ take 40 (trim (the (textContent e)))
                           @ (if length (the (textContent e)) > 40 then ''...'' else '''') @ ''\"''
                      else '''');
              dataAttrs = dataAttrsOf (dataset e);
              r = trim (tag @ ident @ classes @ nm @ concat dataAttrs @ text)
          in if r \<noteq> [] then r else ''unknown'')"

text \<open>
  The loop of \<open>getElementPath\<close>: it walks up from the node while the current
  node is not \<open>document.body\<close> (given by its identity, \<open>None\<close> when the document
  has no body), and puts each level in front of the path. Reading
  \<open>tagName.toLowerCase()\<close> on a node without a tag name throws.
\<close>

definition firstClassOf :: "class_attr \<Rightarrow> string" where
  "firstClassOf c =
     (case c of
        ClassString s \<Rightarrow> (if s \<noteq> [] then ''.'' @ hd (splitSpaces (trim s)) else '''')
      | _ \<Rightarrow> '''')"

fun pathLoop :: "nat option \<Rightarrow> node option \<Rightarrow> string list \<Rightarrow> error + string list" where
  "pathLoop body None path = Inr path"
| "pathLoop body (Some (Node e par)) path =
     (if Some (uid e) = body then Inr path
      else case tagName e of
             None \<Rightarrow> Inl TypeError
           | Some t \<Rightarrow>
               pathLoop body par
                 ((toLowerCase t
                   @ (if truthy (id_prop e) then ''#'' @ the (id_prop e) else '''')
                   @ firstClassOf (className e)) # path))"

definition getElementPath :: "nat option \<Rightarrow> node option \<Rightarrow> error + string" where
  "getElementPath body element =
     (case pathLoop body element [] of
        Inl err \<Rightarrow> Inl err
      | Inr path \<Rightarrow> Inr (join '' > '' path))"

section \<open>Numbers and scroll metrics\<close>

text \<open>
  The result of an arithmetic operation on doubles is the exact result rounded
  to the nearest double, a tie going to the double with the even significand.
  \<open>roundToDouble\<close> does this for a rational \<open>p / q\<close>. With \<open>k\<close> the
  integer such that \<open>2 ^ k \<le> p / q < 2 ^ (k + 1)\<close>, the doubles around it are
  the multiples of \<open>2 ^ e\<close> for \<open>e = k - 52\<close>, or \<open>e = - 1074\<close> where the
  subnormal doubles are; the quotient of \<open>p / q\<close> by \<open>2 ^ e\<close> is rounded to an
  integer \<open>m\<close>, and the result is \<open>m * 2 ^ e\<close>, or an infinity when that
  reaches \<open>2 ^ 1024\<close>, which is when \<open>m\<close> has more than \<open>1024 - e\<close> binary
  digits.
\<close>

function bitLength :: "int \<Rightarrow> int" where
  "bitLength n = (if n \<le> 0 then 0 else 1 + bitLength (n div 2))"
  by pat_completeness auto
termination
  by (relation "measure nat") auto

declare bitLength.simps [simp del]

function twoTo :: "int \<Rightarrow> int" where
  "twoTo k = (if k \<le> 0 then 1 else 2 * twoTo (k - 1))"
  by pat_completeness auto
termination
  by (relation "measure nat") auto

declare twoTo.simps [simp del]

text \<open>The fraction \<open>p / q\<close> divided by \<open>2 ^ e\<close>, as numerator and denominator.\<close>

definition scaled :: "int \<Rightarrow> int \<Rightarrow> int \<Rightarrow> int \<times> int" where
  "scaled p q e = (if e \<le> 0 then (p * twoTo (- e), q) else (p, q * twoTo e))"

definition floorLog2 :: "int \<Rightarrow> int \<Rightarrow> int" where
  "floorLog2 p q =
     (let k = bitLength p - bitLength q;
          (n, d) = scaled p q k
      in if d \<le> n then k else k - 1)"

text \<open>The integer nearest to \<open>n / d\<close>, the even one of the two at a tie.\<close>

definition roundHalfEven :: "int \<Rightarrow> int \<Rightarrow> int" where
  "roundHalfEven n d =
     (let f = n div d; r = n mod d
      in if 2 * r < d then f
         else if d < 2 * r then f + 1
         else if even f then f else f + 1)"

definition roundToDouble :: "rat \<Rightarrow> jsnum" where
  "roundToDouble x =
     (if x = 0 then Fin 0
      else
        let (p, q) = quotient_of \<bar>x\<bar>;
            e = max (floorLog2 p q - 52) (- 1074);
            (n, d) = scaled p q e;
            m = roundHalfEven n d;
            r = (if e \<le> 0 then of_int m / of_int (twoTo (- e)) else of_int (m * twoTo e))
        in if 1024 < bitLength m + e then (if 0 < x then PosInf else NegInf)
           else Fin (if 0 < x then r else - r))"

text \<open>
  Division and multiplication by 100 of doubles, \<open>Math.round\<close> (to the nearest
  integer, a tie going up; its result is exact), the fallback \<open>x || 0\<close> (NaN
  and zero are falsy) and the comparison \<open>a > b\<close> (false as soon as one side
  is NaN).
\<close>

definition jsDiv :: "rat \<Rightarrow> rat \<Rightarrow> jsnum" where
  "jsDiv a d =
     (if d \<noteq> 0 then roundToDouble (a / d)
      else if a > 0 then PosInf
      else if a < 0 then NegInf
      else NaN)"

fun times100 :: "jsnum \<Rightarrow> jsnum" where
  "times100 (Fin x) = roundToDouble (x * 100)"
| "times100 n = n"

fun mathRound :: "jsnum \<Rightarrow> jsnum" where
  "mathRound (Fin x) = Fin (of_int \<lfloor>x + 1 / 2\<rfloor>)"
| "mathRound n = n"

fun orZero :: "jsnum \<Rightarrow> jsnum" where
  "orZero NaN = Fin 0"
| "orZero n = n"

fun jsGreater :: "jsnum \<Rightarrow> jsnum \<Rightarrow> bool" where
  "jsGreater NaN b = False"
| "jsGreater a NaN = False"
| "jsGreater (Fin x) (Fin y) = (x > y)"
| "jsGreater PosInf b = (b \<noteq> PosInf)"
| "jsGreater a NegInf = (a \<noteq> NegInf)"
| "jsGreater a b = False"

text \<open>
  What \<open>getScrollInfo\<close> reads from the window and the document element. The
  scroll offsets are doubles; the scroll height and the inner height are
  integers (\<open>long\<close> attributes), so their difference is exact.
\<close>

record viewport =
  pageXOffset :: rat
  pageYOffset :: rat
  docScrollLeft :: rat
  docScrollTop :: rat
  scrollHeight :: int
  innerHeight :: int

record scroll_info =
  scroll_x :: rat
  scroll_y :: rat
  scroll_percentage :: jsnum
  scroll_height :: int
  viewport_height :: int

definition getScrollInfo :: "viewport \<Rightarrow> scroll_info" where
  "getScrollInfo v =
     (let scrollTop = (if pageYOffset v \<noteq> 0 then pageYOffset v else docScrollTop v);
          scrollHeight = scrollHeight v;
          clientHeight = innerHeight v;
          scrollPercentage =
            orZero (mathRound (times100 (jsDiv scrollTop (of_int (scrollHeight - clientHeight)))))
      in \<lparr>scroll_x = (if pageXOffset v \<noteq> 0 then pageXOffset v else docScrollLeft v),
          scroll_y = scrollTop,
          scroll_percentage = scrollPercentage,
          scroll_height = scrollHeight,
          viewport_height = clientHeight\<rparr>)"

section \<open>Configuration, session state and the emitted record\<close>

record config =
  scrollThrottle :: int
  mouseMoveThrottle :: int
  resizeThrottle :: int
  idleTimeout :: int
  trackMouseMovement :: bool
  trackKeyboard :: bool
  trackClipboard :: bool
  trackVisibility :: bool
  visibilityThreshold :: rat

definition CONFIG_default :: config where
  "CONFIG_default =
     \<lparr>scrollThrottle = 300, mouseMoveThrottle = 500, resizeThrottle = 500,
      idleTimeout = 30000, trackMouseMovement = True, trackKeyboard = True,
      trackClipboard = True, trackVisibility = True, visibilityThreshold = 1 / 2\<rparr>"

text \<open>
  The object \<open>STATE\<close>. Times are milliseconds; \<open>observedElements\<close> holds the
  identities of the elements in the set.
\<close>

record tracker_state =
  eventCount :: nat
  sessionStart :: int
  lastActivity :: int
  observedElements :: "nat set"
  scrollDepth :: jsnum
  maxScrollDepth :: jsnum
  timeOnPage :: int
  isIdle :: bool
  mouseTrail :: "(int \<times> int \<times> int) list"

record session_info =
  time_on_page_ms :: int
  total_events :: nat
  max_scroll_depth :: jsnum

text \<open>
  The object \<open>logData\<close>. The kind-specific properties spread into it are kept
  together in \<open>additional\<close>; no handler below passes a property named like one of
  the fixed ones. The time stamp is kept as the millisecond value of the date.
\<close>

record log_data =
  event_number :: nat
  timestamp :: int
  relative_time_ms :: int
  type_of_event :: string
  event_object :: string
  element_identifier :: string
  element_tag :: string
  element_path :: string
  session :: session_info
  additional :: "(string \<times> jsval) list"

datatype timer = IdleTimer | ScrollTimer

text \<open>
  Everything the handlers share: the configuration, \<open>STATE\<close>, the variable
  \<open>lastMouseLog\<close> of the mouse-move handler, the pending \<open>setTimeout\<close> callbacks
  with their due times (\<open>idleTimer\<close> and \<open>scrollTimeout\<close> each name at most one
  of them), the records printed so far (oldest first), the identity of
  \<open>document.body\<close> and the node itself, and the scroll geometry of the window.
\<close>

record world =
  CONFIG :: config
  STATE :: tracker_state
  lastMouseLog :: int
  timers :: "(int \<times> timer) list"
  console :: "log_data list"
  body :: "node option"
  window :: viewport

definition bodyId :: "world \<Rightarrow> nat option" where
  "bodyId w = map_option (\<lambda>n. uid (props n)) (body w)"

section \<open>The logging function\<close>

text \<open>
  \<open>logEvent\<close> first updates the counter, the last activity and the idle flag,
  then builds the record property by property, and prints it. The call happens
  at one instant \<open>now\<close>. With a node that has no tag name, building
  \<open>element_tag\<close> throws after the state was updated and before anything is
  printed.
\<close>

definition logEvent ::
  "int \<Rightarrow> string \<Rightarrow> string \<Rightarrow> node option \<Rightarrow> (string \<times> jsval) list \<Rightarrow> world
     \<Rightarrow> (error + log_data) \<times> world" where
  "logEvent now eventType eventObject element additionalInfo w =
     (let st = (STATE w)\<lparr>eventCount := eventCount (STATE w) + 1,
                         lastActivity := now, isIdle := False\<rparr>;
          w1 = w\<lparr>STATE := st\<rparr>;
          mk = (\<lambda>ident tag path.
                 \<lparr>event_number = eventCount st,
                  timestamp = now,
                  relative_time_ms = now - sessionStart st,
                  type_of_event = eventType,
                  event_object = eventObject,
                  element_identifier = ident,
                  element_tag = tag,
                  element_path = path,
                  session = \<lparr>time_on_page_ms = now - sessionStart st,
                             total_events = eventCount st,
                             max_scroll_depth = maxScrollDepth st\<rparr>,
                  additional = additionalInfo\<rparr>)
      in case element of
           None \<Rightarrow>
             (let logData = mk ''N/A'' ''N/A'' ''N/A''
              in (Inr logData, w1\<lparr>console := console w1 @ [logData]\<rparr>))
         | Some (Node e par) \<Rightarrow>
             (case tagName e of
                None \<Rightarrow> (Inl TypeError, w1)
              | Some t \<Rightarrow>
                  (case getElementPath (bodyId w1) element of
                     Inl err \<Rightarrow> (Inl err, w1)
                   | Inr path \<Rightarrow>
                       (let logData = mk (getElementIdentifier element) (toLowerCase t) path
                        in (Inr logData, w1\<lparr>console := console w1 @ [logData]\<rparr>)))))"

section \<open>Signal handlers\<close>

text \<open>
  What one listener call did: it threw, it printed one record, or it printed
  nothing. The state changes made before a throw stay.
\<close>

datatype outcome = Threw error | Emitted log_data | Quiet

fun outcomeOf :: "error + log_data \<Rightarrow> outcome" where
  "outcomeOf (Inl err) = Threw err"
| "outcomeOf (Inr r) = Emitted r"

definition num :: "int \<Rightarrow> jsval" where
  "num i = Num (Fin (of_int i))"

record mouse_event =
  m_target :: node
  clientX :: int
  clientY :: int
  pageX :: int
  pageY :: int
  button :: int
  buttons :: int
  m_ctrlKey :: bool
  m_shiftKey :: bool
  m_altKey :: bool
  m_metaKey :: bool
  detail :: int
  movementX :: int
  movementY :: int

record key_event =
  k_target :: node
  key :: string
  code :: string
  keyCode :: int
  k_ctrlKey :: bool
  k_shiftKey :: bool
  k_altKey :: bool
  k_metaKey :: bool
  repeat :: bool

record entry =
  isIntersecting :: bool
  e_target :: node
  intersectionRatio :: rat
  boundingClientRect :: jsval

definition clickHandler :: "int \<Rightarrow> mouse_event \<Rightarrow> world \<Rightarrow> outcome \<times> world" where
  "clickHandler now e w =
     (let element = m_target e;
          elementType = getElementType (Some element);
          (r, w1) = logEvent now ''click'' elementType (Some element)
            [(''coordinates'', Obj [(''x'', num (clientX e)), (''y'', num (clientY e)),
                                    (''pageX'', num (pageX e)), (''pageY'', num (pageY e))]),
             (''button'', num (button e)),
             (''buttons'', num (buttons e)),
             (''ctrl_key'', Bool (m_ctrlKey e)),
             (''shift_key'', Bool (m_shiftKey e)),
             (''alt_key'', Bool (m_altKey e)),
             (''meta_key'', Bool (m_metaKey e)),
             (''detail'', num (detail e))] w
      in (outcomeOf r, w1))"

definition optStr :: "string option \<Rightarrow> jsval" where
  "optStr v = (case v of None \<Rightarrow> Undefined | Some s \<Rightarrow> Str s)"

definition changeHandler :: "int \<Rightarrow> node \<Rightarrow> world \<Rightarrow> outcome \<times> world" where
  "changeHandler now element w =
     (let elementType = getElementType (Some element);
          e = props element;
          (r, w1) = logEvent now ''change'' elementType (Some element)
            [(''value'', if type_prop e = Some ''password'' then Str ''***''
                         else optStr (value_prop e)),
             (''checked'', case checked e of None \<Rightarrow> Undefined | Some b \<Rightarrow> Bool b),
             (''selected_index'', case selectedIndex e of None \<Rightarrow> Undefined | Some i \<Rightarrow> num i),
             (''selected_options'', case selectedOptions e of
                                      None \<Rightarrow> Undefined
                                    | Some opts \<Rightarrow> Arr (map Str opts))] w
      in (outcomeOf r, w1))"

definition keydownHandler :: "int \<Rightarrow> key_event \<Rightarrow> world \<Rightarrow> outcome \<times> world" where
  "keydownHandler now e w =
     (let (r, w1) = logEvent now ''keyboard'' ''keydown'' (Some (k_target e))
            [(''key'', Str (key e)),
             (''code'', Str (code e)),
             (''key_code'', num (keyCode e)),
             (''ctrl_key'', Bool (k_ctrlKey e)),
             (''shift_key'', Bool (k_shiftKey e)),
             (''alt_key'', Bool (k_altKey e)),
             (''meta_key'', Bool (k_metaKey e)),
             (''repeat'', Bool (repeat e))] w
      in (outcomeOf r, w1))"

definition keyupHandler :: "int \<Rightarrow> key_event \<Rightarrow> world \<Rightarrow> outcome \<times> world" where
  "keyupHandler now e w =
     (let (r, w1) = logEvent now ''keyboard'' ''keyup'' (Some (k_target e))
            [(''key'', Str (key e)), (''code'', Str (code e))] w
      in (outcomeOf r, w1))"

definition dragstartHandler :: "int \<Rightarrow> node \<Rightarrow> world \<Rightarrow> outcome \<times> world" where
  "dragstartHandler now target w =
     (let (r, w1) = logEvent now ''drag_start'' (getElementType (Some target)) (Some target) [] w
      in (outcomeOf r, w1))"

text \<open>
  The scroll listener only restarts its timeout; the callback of the timeout
  computes the metrics, updates the depths and then logs.
\<close>

definition clearTimer :: "timer \<Rightarrow> world \<Rightarrow> world" where
  "clearTimer k w = w\<lparr>timers := filter (\<lambda>(d, k'). k' \<noteq> k) (timers w)\<rparr>"

definition setTimer :: "timer \<Rightarrow> int \<Rightarrow> world \<Rightarrow> world" where
  "setTimer k due w = w\<lparr>timers := timers w @ [(due, k)]\<rparr>"

definition scrollHandler :: "int \<Rightarrow> world \<Rightarrow> outcome \<times> world" where
  "scrollHandler now w =
     (let w1 = clearTimer ScrollTimer w
      in (Quiet, setTimer ScrollTimer (now + scrollThrottle (CONFIG w1)) w1))"

definition scrollInfoPayload :: "scroll_info \<Rightarrow> (string \<times> jsval) list" where
  "scrollInfoPayload i =
     [(''scroll_x'', Num (Fin (scroll_x i))),
      (''scroll_y'', Num (Fin (scroll_y i))),
      (''scroll_percentage'', Num (scroll_percentage i)),
      (''scroll_height'', num (scroll_height i)),
      (''viewport_height'', num (viewport_height i))]"

definition scrollCallback :: "int \<Rightarrow> world \<Rightarrow> outcome \<times> world" where
  "scrollCallback now w =
     (let scrollInfo = getScrollInfo (window w);
          st1 = (STATE w)\<lparr>scrollDepth := scroll_percentage scrollInfo\<rparr>;
          st2 = (if jsGreater (scroll_percentage scrollInfo) (maxScrollDepth st1)
                 then st1\<lparr>maxScrollDepth := scroll_percentage scrollInfo\<rparr>
                 else st1);
          (r, w1) = logEvent now ''scroll'' ''page'' (body w) (scrollInfoPayload scrollInfo)
                      (w\<lparr>STATE := st2\<rparr>)
      in (outcomeOf r, w1))"

definition mousemoveHandler :: "int \<Rightarrow> mouse_event \<Rightarrow> world \<Rightarrow> outcome \<times> world" where
  "mousemoveHandler now e w =
     (let trail = mouseTrail (STATE w) @ [(clientX e, clientY e, now)];
          trail' = (if length trail > 10 then tl trail else trail);
          w1 = w\<lparr>STATE := (STATE w)\<lparr>mouseTrail := trail'\<rparr>\<rparr>
      in if now - lastMouseLog w1 > mouseMoveThrottle (CONFIG w1)
         then
           (let (r, w2) = logEvent now ''mouse_move'' ''cursor'' (Some (m_target e))
                  [(''coordinates'', Obj [(''x'', num (clientX e)), (''y'', num (clientY e))]),
                   (''movement'', Obj [(''x'', num (movementX e)), (''y'', num (movementY e))]),
                   (''buttons'', num (buttons e))] (w1\<lparr>lastMouseLog := now\<rparr>)
            in (outcomeOf r, w2))
         else (Quiet, w1))"

text \<open>Decimal notation of an integer, for \<open>Math.round(...) + '%'\<close>.\<close>

function showNat :: "nat \<Rightarrow> string" where
  "showNat n =
     (if n < 10 then [''0123456789'' ! n]
      else showNat (n div 10) @ [''0123456789'' ! (n mod 10)])"
  by pat_completeness auto
termination
  by (relation "measure id") auto

declare showNat.simps [simp del]

definition showInt :: "int \<Rightarrow> string" where
  "showInt i = (if i < 0 then ''-'' @ showNat (nat (- i)) else showNat (nat i))"

text \<open>
  The callback of the intersection observer runs over the entries in order; a
  throw in one entry ends the callback.
\<close>

definition observeEntry :: "int \<Rightarrow> entry \<Rightarrow> world \<Rightarrow> outcome \<times> world" where
  "observeEntry now en w =
     (if isIntersecting en \<and> uid (props (e_target en)) \<notin> observedElements (STATE w)
      then
        (let w1 = w\<lparr>STATE := (STATE w)\<lparr>observedElements :=
                      insert (uid (props (e_target en))) (observedElements (STATE w))\<rparr>\<rparr>;
             elementType = getElementType (Some (e_target en));
             (r, w2) = logEvent now ''view'' elementType (Some (e_target en))
                  [(''visibility_ratio'',
                      Str (showInt \<lfloor>intersectionRatio en * 100 + 1 / 2\<rfloor> @ ''%'')),
                   (''bounding_rect'', boundingClientRect en)] w1
         in (outcomeOf r, w2))
      else (Quiet, w))"

fun observerCallback :: "int \<Rightarrow> entry list \<Rightarrow> world \<Rightarrow> outcome list \<times> world" where
  "observerCallback now [] w = ([], w)"
| "observerCallback now (en # ens) w =
     (case observeEntry now en w of
        (Threw err, w1) \<Rightarrow> ([Threw err], w1)
      | (r, w1) \<Rightarrow> (let (rs, w2) = observerCallback now ens w1 in (r # rs, w2)))"

section \<open>Idle detection\<close>

text \<open>
  \<open>resetIdleTimer\<close> clears the idle timeout, logs \<open>user_active\<close> when the idle
  flag is set, and starts the timeout again. The arguments of a call are
  evaluated before \<open>logEvent\<close> runs, so the payload is computed from the last
  activity as it was before the call.
\<close>

definition resetIdleTimer :: "int \<Rightarrow> world \<Rightarrow> outcome \<times> world" where
  "resetIdleTimer now w =
     (let w1 = clearTimer IdleTimer w;
          (r, w2) =
            (if isIdle (STATE w1)
             then
               (let w1' = w1\<lparr>STATE := (STATE w1)\<lparr>isIdle := False\<rparr>\<rparr>;
                    (r, w2) = logEvent now ''user_active'' ''session'' (body w1')
                       [(''idle_duration_ms'', num (now - lastActivity (STATE w1')))] w1'
                in (outcomeOf r, w2))
             else (Quiet, w1))
      in case r of
           Threw err \<Rightarrow> (r, w2)
         | _ \<Rightarrow> (r, setTimer IdleTimer (now + idleTimeout (CONFIG w2)) w2))"

definition idleCallback :: "int \<Rightarrow> world \<Rightarrow> outcome \<times> world" where
  "idleCallback now w =
     (let w1 = w\<lparr>STATE := (STATE w)\<lparr>isIdle := True\<rparr>\<rparr>;
          (r, w2) = logEvent now ''user_idle'' ''session'' (body w1)
             [(''idle_timeout_ms'', num (idleTimeout (CONFIG w1))),
              (''last_activity'', num (lastActivity (STATE w1)))] w1
      in (outcomeOf r, w2))"

section \<open>The event loop\<close>

text \<open>
  The raw signals that are modelled. \<open>MouseDown\<close>, \<open>KeyPress\<close> and
  \<open>TouchStart\<close> have no listener but \<open>resetIdleTimer\<close>. A scroll signal
  carries the scroll geometry the window has from then on.
\<close>

datatype signal =
    Click mouse_event
  | MouseDown
  | KeyPress
  | TouchStart
  | MouseMove mouse_event
  | KeyDown key_event
  | KeyUp key_event
  | Change node
  | DragStart node
  | Scroll viewport
  | Intersect "entry list"

text \<open>
  One signal runs its listeners one after the other, in the order the browser
  calls them: on \<open>document\<close>, capturing listeners before bubbling ones and
  otherwise in the order of registration; the listener on \<open>window\<close> last. A throw
  in one listener does not stop the next one. The keyboard, mouse-move and
  visibility listeners exist when the configuration enables them. The source
  tests these three flags once, when the script runs; no signal of this model
  changes the configuration (\<open>updateConfig\<close> is not among them), so the flag
  in the world is the flag the script saw.
\<close>

definition dispatch :: "int \<Rightarrow> signal \<Rightarrow> world \<Rightarrow> world" where
  "dispatch now sig w =
     (case sig of
        Click e \<Rightarrow> snd (resetIdleTimer now (snd (clickHandler now e w)))
      | MouseDown \<Rightarrow> snd (resetIdleTimer now w)
      | KeyPress \<Rightarrow> snd (resetIdleTimer now w)
      | TouchStart \<Rightarrow> snd (resetIdleTimer now w)
      | MouseMove e \<Rightarrow>
          (let w1 = snd (resetIdleTimer now w)
           in if trackMouseMovement (CONFIG w1) then snd (mousemoveHandler now e w1) else w1)
      | KeyDown e \<Rightarrow> (if trackKeyboard (CONFIG w) then snd (keydownHandler now e w) else w)
      | KeyUp e \<Rightarrow> (if trackKeyboard (CONFIG w) then snd (keyupHandler now e w) else w)
      | Change t \<Rightarrow> snd (changeHandler now t w)
      | DragStart t \<Rightarrow> snd (dragstartHandler now t w)
      | Scroll v \<Rightarrow> snd (scrollHandler now (snd (resetIdleTimer now (w\<lparr>window := v\<rparr>))))
      | Intersect ens \<Rightarrow>
          (if trackVisibility (CONFIG w) then snd (observerCallback now ens w) else w))"

text \<open>
  A timeout callback runs at its due time. Before a signal that arrives at time
  \<open>t\<close>, the callbacks due by \<open>t\<close> run, the earliest first and, among equal due
  times, the one set first. No callback sets or clears a timeout.
\<close>

definition runTimer :: "int \<times> timer \<Rightarrow> world \<Rightarrow> world" where
  "runTimer dk w =
     (case snd dk of
        IdleTimer \<Rightarrow> snd (idleCallback (fst dk) w)
      | ScrollTimer \<Rightarrow> snd (scrollCallback (fst dk) w))"

definition fireDue :: "int \<Rightarrow> world \<Rightarrow> world" where
  "fireDue t w =
     fold runTimer (sort_key fst (filter (\<lambda>(d, k). d \<le> t) (timers w)))
       (w\<lparr>timers := filter (\<lambda>(d, k). \<not> d \<le> t) (timers w)\<rparr>)"

definition step :: "int \<times> signal \<Rightarrow> world \<Rightarrow> world" where
  "step ts w = dispatch (fst ts) (snd ts) (fireDue (fst ts) w)"

definition run :: "(int \<times> signal) list \<Rightarrow> world \<Rightarrow> world" where
  "run tss w = fold step tss w"

text \<open>
  The state when the script has run at time \<open>t0\<close>: the initial \<open>STATE\<close>,
  \<open>lastMouseLog = 0\<close>, and the idle timeout started by the call of
  \<open>resetIdleTimer\<close> at the end of the script.
\<close>

definition STATE_init :: "int \<Rightarrow> tracker_state" where
  "STATE_init t0 =
     \<lparr>eventCount = 0, sessionStart = t0, lastActivity = t0, observedElements = {},
      scrollDepth = Fin 0, maxScrollDepth = Fin 0, timeOnPage = 0, isIdle = False,
      mouseTrail = []\<rparr>"

definition init :: "config \<Rightarrow> int \<Rightarrow> node option \<Rightarrow> viewport \<Rightarrow> world" where
  "init cfg t0 b v =
     snd (resetIdleTimer t0
            \<lparr>CONFIG = cfg, STATE = STATE_init t0, lastMouseLog = 0, timers = [],
             console = [], body = b, window = v\<rparr>)"

section \<open>Notions used to state the properties\<close>

text \<open>
  The classifier as an ordered list of rules, the first rule that applies giving
  the result. \<open>primaryTags\<close> and \<open>secondaryTags\<close> are the two groups of tag
  tests of \<open>getElementType\<close>, before and after the tests of the content-editable
  flag and of the input type.
\<close>

definition primaryTags :: "(string \<times> string) list" where
  "primaryTags =
     [(''button'', ''button''), (''a'', ''link''), (''img'', ''image''), (''video'', ''video''),
      (''audio'', ''audio''), (''canvas'', ''canvas''), (''svg'', ''svg''),
      (''select'', ''dropdown''), (''textarea'', ''textarea'')]"

definition secondaryTags :: "(string \<times> string) list" where
  "secondaryTags =
     [(''h1'', ''heading''), (''h2'', ''heading''), (''h3'', ''heading''), (''h4'', ''heading''),
      (''h5'', ''heading''), (''h6'', ''heading''), (''form'', ''form''), (''table'', ''table''),
      (''nav'', ''navigation''), (''iframe'', ''iframe'')]"

definition tagOf :: "props \<Rightarrow> string" where
  "tagOf e = toLowerCase (the (tagName e))"

definition tagRule :: "(string \<times> string) list \<Rightarrow> props \<Rightarrow> string option" where
  "tagRule table e = map_of table (tagOf e)"

definition editableRule :: "props \<Rightarrow> string option" where
  "editableRule e = (if contentEditable e = Some ''true'' then Some ''contenteditable'' else None)"

definition inputRule :: "props \<Rightarrow> string option" where
  "inputRule e =
     (if tagOf e = ''input''
      then (case map_of inputTypes
                   (if truthy (type_prop e) then toLowerCase (the (type_prop e)) else []) of
              Some t \<Rightarrow> Some t
            | None \<Rightarrow> Some ''text_input'')
      else None)"

definition roleRule :: "props \<Rightarrow> string option" where
  "roleRule e = (if truthy (role_attr e) then Some (tagOf e @ ''_'' @ the (role_attr e)) else None)"

definition rawTagRule :: "props \<Rightarrow> string option" where
  "rawTagRule e = Some (tagOf e)"

fun firstMatch :: "(props \<Rightarrow> string option) list \<Rightarrow> props \<Rightarrow> string" where
  "firstMatch [] e = ''unknown''"
| "firstMatch (r # rs) e = (case r e of Some t \<Rightarrow> t | None \<Rightarrow> firstMatch rs e)"

definition classifyBy :: "(props \<Rightarrow> string option) list \<Rightarrow> node option \<Rightarrow> string" where
  "classifyBy rules element =
     (case element of
        None \<Rightarrow> ''unknown''
      | Some (Node e par) \<Rightarrow> if truthy (tagName e) then firstMatch rules e else ''unknown'')"

text \<open>
  The order of the specification: the whole tag table, the content-editable
  flag, the input types, the role, the tag name.
\<close>

definition classify_spec :: "node option \<Rightarrow> string" where
  "classify_spec =
     classifyBy [tagRule (primaryTags @ secondaryTags), editableRule, inputRule, roleRule,
                 rawTagRule]"

text \<open>
  The order of the code: the headings, \<open>form\<close>, \<open>table\<close>, \<open>nav\<close> and
  \<open>iframe\<close> come after the content-editable flag and the input types.
\<close>

definition classify_ordered :: "node option \<Rightarrow> string" where
  "classify_ordered =
     classifyBy [tagRule primaryTags, editableRule, inputRule, tagRule secondaryTags, roleRule,
                 rawTagRule]"

text \<open>
  The walk of \<open>getElementPath\<close> meets only nodes with a tag name, up to the
  body or the root.
\<close>

fun elementChain :: "nat option \<Rightarrow> node option \<Rightarrow> bool" where
  "elementChain b None = True"
| "elementChain b (Some (Node e par)) =
     (if Some (uid e) = b then True
      else if tagName e = None then False
      else elementChain b par)"

text \<open>The order of the numbers that are not NaN, and the larger of two.\<close>

definition jsLeq :: "jsnum \<Rightarrow> jsnum \<Rightarrow> bool" where
  "jsLeq a b = (if a = b then True else jsGreater b a)"

definition jsMax :: "jsnum \<Rightarrow> jsnum \<Rightarrow> jsnum" where
  "jsMax a b = (if jsGreater b a then b else a)"

text \<open>
  A sequence of runs of the scroll callback, each at its time and with the
  geometry the window has then.
\<close>

definition scrollAt :: "int \<times> viewport \<Rightarrow> world \<Rightarrow> world" where
  "scrollAt tv w = snd (scrollCallback (fst tv) (w\<lparr>window := snd tv\<rparr>))"

definition percentageOf :: "int \<times> viewport \<Rightarrow> jsnum" where
  "percentageOf tv = scroll_percentage (getScrollInfo (snd tv))"

text \<open>
  What every call of \<open>logEvent\<close> does to the state before it builds the record,
  and the nodes for which building the record does not throw.
\<close>

definition touched :: "int \<Rightarrow> world \<Rightarrow> world" where
  "touched now w =
     w\<lparr>STATE := (STATE w)\<lparr>eventCount := eventCount (STATE w) + 1,
                            lastActivity := now, isIdle := False\<rparr>\<rparr>"

fun loggable :: "world \<Rightarrow> node option \<Rightarrow> bool" where
  "loggable w None = True"
| "loggable w (Some (Node e par)) =
     (if tagName e = None then False else elementChain (bodyId w) (Some (Node e par)))"

text \<open>The property of a record's payload with a given name.\<close>

definition payload :: "log_data \<Rightarrow> string \<Rightarrow> jsval option" where
  "payload r k = map_of (additional r) k"

text \<open>A sequence of calls of the mouse-move listener, each at its time.\<close>

definition mouseMoves :: "(int \<times> mouse_event) list \<Rightarrow> world \<Rightarrow> world" where
  "mouseMoves tes w = fold (\<lambda>te w'. snd (mousemoveHandler (fst te) (snd te) w')) tes w"

text \<open>
  No \<open>user_active\<close> record has been printed; and the state between two
  callbacks in which, besides, the idle flag is not set.
\<close>

definition silent :: "world \<Rightarrow> bool" where
  "silent w = (''user_active'' \<notin> type_of_event ` set (console w))"

definition quiet :: "world \<Rightarrow> bool" where
  "quiet w = (if isIdle (STATE w) then False else silent w)"

text \<open>
  The numbers of the printed records increase strictly, and lie between 1 and
  the counter.
\<close>

definition numbered :: "world \<Rightarrow> bool" where
  "numbered w =
     (sorted_wrt (<) (map event_number (console w))
      \<and> list_all (\<lambda>r. 1 \<le> event_number r \<and> event_number r \<le> eventCount (STATE w))
           (console w))"

text \<open>
  The \<open>view\<close> records printed so far, and the elements for which a run printed
  one: for each batch of entries given to the observer's callback, the targets
  of the entries whose outcome is an emitted record, in the order of the run.
\<close>

definition viewCount :: "world \<Rightarrow> nat" where
  "viewCount w = length (filter (\<lambda>r. type_of_event r = ''view'') (console w))"




section \<open>Example nodes and events\<close>

definition blankProps :: props where
  "blankProps =
     \<lparr>uid = 0, tagName = None, type_prop = None, role_attr = None, contentEditable = None,
      id_prop = None, className = ClassAbsent, name_prop = None, textContent = None,
      dataset = None, value_prop = None, checked = None, selectedIndex = None,
      selectedOptions = None\<rparr>"

text \<open>The body, a button, a password field, an editable form, and two nodes
  without a tag name: a text node inside the body and the document itself.\<close>

definition bodyNode :: node where
  "bodyNode =
     Node (blankProps\<lparr>uid := 1, tagName := Some ''BODY'', id_prop := Some [],
                      className := ClassString [], contentEditable := Some ''inherit'',
                      textContent := Some ''OK hello''\<rparr>) None"

definition buttonNode :: node where
  "buttonNode =
     Node (blankProps\<lparr>uid := 2, tagName := Some ''BUTTON'', type_prop := Some ''submit'',
                      id_prop := Some ''go'', className := ClassString ''btn  primary'',
                      contentEditable := Some ''inherit'', name_prop := Some [],
                      textContent := Some ''OK'', value_prop := Some []\<rparr>)
          (Some bodyNode)"

definition passwordNode :: node where
  "passwordNode =
     Node (blankProps\<lparr>uid := 3, tagName := Some ''INPUT'', type_prop := Some ''password'',
                      id_prop := Some ''pw'', className := ClassString [],
                      contentEditable := Some ''inherit'', name_prop := Some ''pw'',
                      textContent := Some [], value_prop := Some ''hunter2''\<rparr>)
          (Some bodyNode)"

definition formEditable :: node where
  "formEditable =
     Node (blankProps\<lparr>uid := 4, tagName := Some ''FORM'', id_prop := Some [],
                      className := ClassString [], contentEditable := Some ''true'',
                      textContent := Some []\<rparr>)
          (Some bodyNode)"

definition textNode :: node where
  "textNode = Node (blankProps\<lparr>uid := 5, textContent := Some ''hello''\<rparr>) (Some bodyNode)"

definition documentNode :: node where
  "documentNode = Node (blankProps\<lparr>uid := 6\<rparr>) None"

definition mouseAt :: "node \<Rightarrow> int \<Rightarrow> int \<Rightarrow> mouse_event" where
  "mouseAt t x y =
     \<lparr>m_target = t, clientX = x, clientY = y, pageX = x, pageY = y, button = 0, buttons = 0,
      m_ctrlKey = False, m_shiftKey = False, m_altKey = False, m_metaKey = False, detail = 1,
      movementX = 0, movementY = 0\<rparr>"

definition keyOn :: "node \<Rightarrow> string \<Rightarrow> string \<Rightarrow> int \<Rightarrow> key_event" where
  "keyOn t k c n =
     \<lparr>k_target = t, key = k, code = c, keyCode = n, k_ctrlKey = False, k_shiftKey = False,
      k_altKey = False, k_metaKey = False, repeat = False\<rparr>"


definition geometry :: "rat \<Rightarrow> int \<Rightarrow> int \<Rightarrow> viewport" where
  "geometry y height inner =
     \<lparr>pageXOffset = 0, pageYOffset = y, docScrollLeft = 0, docScrollTop = y,
      scrollHeight = height, innerHeight = inner\<rparr>"

text \<open>The tracker loaded at time \<open>t0\<close> on a page of height 1000 in a window of
  height 500, with the default configuration.\<close>

definition loaded :: "int \<Rightarrow> world" where
  "loaded t0 = init CONFIG_default t0 (Some bodyNode) (geometry 0 1000 500)"

section \<open>The logging function: when it emits and when it throws\<close>

lemma pathLoop_ok: "elementChain b n \<Longrightarrow> \<exists>p. pathLoop b n acc = Inr p"
  by (induction b n acc rule: pathLoop.induct) (auto split: option.splits if_splits)

lemma pathLoop_fail: "\<not> elementChain b n \<Longrightarrow> pathLoop b n acc = Inl TypeError"
  by (induction b n acc rule: pathLoop.induct) (auto split: option.splits if_splits)

lemma bodyId_touched [simp]: "bodyId (touched now w) = bodyId w"
  by (simp add: bodyId_def touched_def)

lemma logEvent_emits:
  assumes "loggable w el"
  shows "\<exists>rec. logEvent now ty obj el info w =
            (Inr rec, (touched now w)\<lparr>console := console w @ [rec]\<rparr>)
          \<and> event_number rec = eventCount (STATE w) + 1
          \<and> timestamp rec = now
          \<and> type_of_event rec = ty
          \<and> event_object rec = obj
          \<and> additional rec = info
          \<and> total_events (session rec) = eventCount (STATE w) + 1
          \<and> max_scroll_depth (session rec) = maxScrollDepth (STATE w)"
proof (cases el)
  case None
  then show ?thesis by (simp add: logEvent_def touched_def Let_def)
next
  case (Some nd)
  obtain e par where nd: "nd = Node e par" by (cases nd)
  from assms Some nd obtain t where t: "tagName e = Some t"
    and ch: "elementChain (bodyId w) (Some (Node e par))"
    by (auto split: if_splits)
  from pathLoop_ok [OF ch] obtain p where p: "pathLoop (bodyId w) (Some (Node e par)) [] = Inr p"
    by blast
  have b: "bodyId (w\<lparr>STATE := s\<rparr>) = bodyId w" for s by (simp add: bodyId_def)
  show ?thesis
    unfolding Some nd
    by (simp add: logEvent_def touched_def Let_def t getElementPath_def p b del: pathLoop.simps)
qed

lemma logEvent_throws:
  assumes "\<not> loggable w el"
  shows "logEvent now ty obj el info w = (Inl TypeError, touched now w)"
proof -
  from assms obtain e par where el: "el = Some (Node e par)"
    by (cases el) (auto, metis node.exhaust)
  show ?thesis
  proof (cases "tagName e")
    case None
    then show ?thesis by (simp add: el logEvent_def touched_def Let_def)
  next
    case (Some t)
    with assms el have nch: "\<not> elementChain (bodyId w) (Some (Node e par))" by simp
    have "pathLoop (bodyId w) (Some (Node e par)) [] = Inl TypeError"
      using nch by (rule pathLoop_fail)
    moreover have b: "bodyId (w\<lparr>STATE := s\<rparr>) = bodyId w" for s by (simp add: bodyId_def)
    ultimately show ?thesis
      by (simp add: el logEvent_def touched_def Let_def Some getElementPath_def b del: pathLoop.simps)
  qed
qed

lemma logEvent_cases:
  "(\<exists>rec. logEvent now ty obj el info w = (Inr rec, (touched now w)\<lparr>console := console w @ [rec]\<rparr>)
       \<and> type_of_event rec = ty \<and> event_number rec = eventCount (STATE w) + 1)
   \<or> logEvent now ty obj el info w = (Inl TypeError, touched now w)"
  using logEvent_emits[of w el now ty obj info] logEvent_throws[of w el now ty obj info] by blast

section \<open>Properties of the classifier\<close>

text \<open>
  C8, as the specification orders the rules: the whole tag table would come
  first, so a form that is content-editable would classify as \<open>form\<close>. The code
  tests the content-editable flag before the tags \<open>form\<close>, \<open>table\<close>, \<open>nav\<close>,
  \<open>iframe\<close> and the headings, and answers \<open>contenteditable\<close>.
\<close>

theorem classify_editable_form_counterexample:
  "getElementType (Some formEditable) = ''contenteditable''
   \<and> classify_spec (Some formEditable) = ''form''"
  by code_simp

text \<open>
  C8, amended: \<open>getElementType\<close> is a function of the node alone, and its result
  is given by the first rule that applies in the order: the tags button, a, img,
  video, audio, canvas, svg, select, textarea; the content-editable flag; the
  input-type table with the default \<open>text_input\<close>; the tags h1 to h6, form, table,
  nav, iframe; the role, as tag, underscore, role; the tag name. A node that is
  absent or has no tag name is \<open>unknown\<close>.
\<close>

theorem getElementType_first_match: "getElementType n = classify_ordered n"
proof (cases n)
  case None
  then show ?thesis
    by (simp add: getElementType_def classify_ordered_def classifyBy_def)
next
  case (Some nd)
  obtain e par where nd: "nd = Node e par" by (cases nd)
  show ?thesis
    unfolding Some nd
    by (simp add: getElementType_def classify_ordered_def classifyBy_def Let_def tagRule_def
        editableRule_def inputRule_def roleRule_def rawTagRule_def tagOf_def primaryTags_def
        secondaryTags_def split: option.splits)
qed

theorem getElementType_first_match_witness:
  "getElementType (Some passwordNode) = ''password_input''
   \<and> classify_ordered (Some passwordNode) = ''password_input''"
proof -
  have "classify_ordered (Some passwordNode) = ''password_input''" by code_simp
  with getElementType_first_match [of "Some passwordNode"] show ?thesis by simp
qed

section \<open>Properties of the scroll metrics\<close>

text \<open>
  C5, as stated: the percentage would be 0 whenever the scroll height minus the
  viewport height is at most 0. With scroll offset 50, scroll height 400 and
  viewport height 500 the difference is -100 and the code answers -50; with
  scroll offset 30 and both heights 500 the difference is 0 and the code answers
  Infinity.
\<close>

theorem scroll_percentage_counterexample:
  "scroll_percentage (getScrollInfo (geometry 50 400 500)) = Fin (- 50)
   \<and> scroll_percentage (getScrollInfo (geometry 30 500 500)) = PosInf"
  by code_simp

text \<open>
  The pieces of \<open>roundToDouble\<close>: the number of binary digits, the nearest
  integer, and some doubles.
\<close>

lemma roundHalfEven_nearest:
  assumes "0 < d"
  shows "2 * \<bar>roundHalfEven n d * d - n\<bar> \<le> d"
proof -
  define f r where "f = n div d" and "r = n mod d"
  have n: "n = f * d + r" by (simp add: f_def r_def)
  have r: "0 \<le> r" "r < d" using assms by (simp_all add: r_def)
  have 1: "f * d - n = - r" using n by simp
  have 2: "(f + 1) * d - n = d - r" using n by (simp add: algebra_simps)
  show ?thesis
    unfolding roundHalfEven_def Let_def f_def [symmetric] r_def [symmetric]
    using r by (auto simp: 1 2)
qed

lemma bitLength_nonneg: "0 \<le> bitLength n"
  by (induction n rule: bitLength.induct) (subst bitLength.simps, simp)

lemma bitLength_bounds:
  "0 < n \<Longrightarrow> twoTo (bitLength n - 1) \<le> n \<and> n < twoTo (bitLength n)"
proof (induction n rule: bitLength.induct)
  case (1 n)
  show ?case
  proof (cases "n = 1")
    case True
    have "bitLength 1 = 1"
      by (subst bitLength.simps, simp, subst bitLength.simps, simp)
    moreover have "twoTo 0 = 1" by (subst twoTo.simps) simp
    moreover have "twoTo 1 = 2" by (subst twoTo.simps) (simp add: \<open>twoTo 0 = 1\<close>)
    ultimately show ?thesis using True by simp
  next
    case False
    with "1.prems" have h: "0 < n div 2" by simp
    from "1.prems" have b: "bitLength n = 1 + bitLength (n div 2)"
      by (subst bitLength.simps) simp
    from "1.IH" "1.prems" h
    have ih: "twoTo (bitLength (n div 2) - 1) \<le> n div 2" "n div 2 < twoTo (bitLength (n div 2))"
      by simp_all
    have pos: "0 < bitLength (n div 2)"
      using h by (subst bitLength.simps) (simp add: add_pos_nonneg bitLength_nonneg)
    have t1: "twoTo (bitLength (n div 2)) = 2 * twoTo (bitLength (n div 2) - 1)"
      using pos by (subst twoTo.simps) simp
    have t2: "twoTo (1 + bitLength (n div 2)) = 2 * twoTo (bitLength (n div 2))"
      using pos by (subst twoTo.simps) simp
    from ih t1 t2 show ?thesis unfolding b by simp linarith
  qed
qed

lemma double_examples:
  "roundToDouble (1 / 10) = Fin (3602879701896397 / 36028797018963968)"
  "roundToDouble (115 / 200) = Fin (2589569785738035 / 4503599627370496)"
  "roundToDouble (2589569785738035 / 4503599627370496 * 100)
     = Fin (8092405580431359 / 140737488355328)"
  "roundToDouble 9007199254740993 = Fin 9007199254740992"
  "roundToDouble 9007199254740995 = Fin 9007199254740996"
  by code_simp+

lemma floor_half: "\<lfloor>(1::rat) / 2\<rfloor> = 0"
  by (simp add: floor_eq_iff)

lemma roundToDouble_not_NaN [simp]: "roundToDouble x \<noteq> NaN"
  by (simp add: roundToDouble_def Let_def split: prod.splits)

lemma times100_not_NaN [simp]: "n \<noteq> NaN \<Longrightarrow> times100 n \<noteq> NaN"
  by (cases n) simp_all

lemma mathRound_not_NaN [simp]: "n \<noteq> NaN \<Longrightarrow> mathRound n \<noteq> NaN"
  by (cases n) simp_all

lemma orZero_id: "n \<noteq> NaN \<Longrightarrow> orZero n = n"
  by (cases n) simp_all

text \<open>
  The quotient and the product are rounded to doubles, so the percentage is not
  always the exact quotient rounded: for scroll offset 115, scroll height 700
  and viewport height 500 the product is just below 57.5 and the percentage is
  57.
\<close>

lemma scroll_percentage_rounded_product:
  "scroll_percentage (getScrollInfo (geometry 115 700 500)) = Fin 57"
  by code_simp

text \<open>
  C5, amended: with \<open>y\<close> the scroll offset and \<open>d\<close> the scroll height minus the
  viewport height, whenever \<open>d\<close> is not 0 the percentage is \<open>Math.round\<close> of
  the double that \<open>(y / d) * 100\<close> computes, the quotient and then the product
  each rounded to the nearest double; it is 0 whenever \<open>y\<close> is 0 (also when
  \<open>d\<close> is 0); and it is never NaN.
\<close>

theorem scroll_percentage_formula:
  "(scrollHeight v - innerHeight v \<noteq> 0 \<longrightarrow>
      scroll_percentage (getScrollInfo v) =
        mathRound (times100 (roundToDouble
          (scroll_y (getScrollInfo v) / of_int (scrollHeight v - innerHeight v)))))
   \<and> (scroll_y (getScrollInfo v) = 0 \<longrightarrow> scroll_percentage (getScrollInfo v) = Fin 0)
   \<and> scroll_percentage (getScrollInfo v) \<noteq> NaN"
proof -
  let ?y = "if pageYOffset v \<noteq> 0 then pageYOffset v else docScrollTop v"
  let ?d = "of_int (scrollHeight v - innerHeight v) :: rat"
  have y: "scroll_y (getScrollInfo v) = ?y"
    and p: "scroll_percentage (getScrollInfo v) = orZero (mathRound (times100 (jsDiv ?y ?d)))"
    by (simp_all add: getScrollInfo_def Let_def)
  have 1: "scroll_percentage (getScrollInfo v) = mathRound (times100 (roundToDouble (?y / ?d)))"
    if "scrollHeight v - innerHeight v \<noteq> 0"
    using that by (simp add: p jsDiv_def orZero_id)
  have 2: "scroll_percentage (getScrollInfo v) = Fin 0" if "?y = 0"
    using that by (simp add: p jsDiv_def roundToDouble_def floor_half)
  have 3: "scroll_percentage (getScrollInfo v) \<noteq> NaN"
  proof (cases "mathRound (times100 (jsDiv ?y ?d))")
    case NaN
    then show ?thesis by (simp add: p)
  qed (simp_all add: p)
  from 1 2 3 show ?thesis by (simp add: y)
qed

theorem scroll_percentage_formula_witness:
  "scroll_percentage (getScrollInfo (geometry 250 1000 500)) = Fin 50
   \<and> scroll_percentage (getScrollInfo (geometry 0 500 500)) = Fin 0
   \<and> scroll_percentage (getScrollInfo (geometry 0 1000 500)) = Fin 0"
proof -
  have a: "scrollHeight (geometry 250 1000 500) - innerHeight (geometry 250 1000 500) \<noteq> 0"
    and b: "scroll_y (getScrollInfo (geometry 0 500 500)) = 0"
    and c: "scroll_y (getScrollInfo (geometry 0 1000 500)) = 0"
    and d: "scrollHeight (geometry 0 1000 500) - innerHeight (geometry 0 1000 500) \<noteq> 0"
    by (simp_all add: geometry_def getScrollInfo_def)
  have r: "mathRound (times100 (roundToDouble
             (scroll_y (getScrollInfo (geometry 250 1000 500))
              / of_int (scrollHeight (geometry 250 1000 500)
                        - innerHeight (geometry 250 1000 500))))) = Fin 50"
    by code_simp
  from scroll_percentage_formula [of "geometry 250 1000 500"] a r
  have "scroll_percentage (getScrollInfo (geometry 250 1000 500)) = Fin 50" by simp
  moreover from scroll_percentage_formula [of "geometry 0 500 500"] b
  have "scroll_percentage (getScrollInfo (geometry 0 500 500)) = Fin 0" by blast
  moreover from scroll_percentage_formula [of "geometry 0 1000 500"] c d
  have "scroll_percentage (getScrollInfo (geometry 0 1000 500)) = Fin 0" by blast
  ultimately show ?thesis by simp
qed

section \<open>Nodes without a tag name\<close>

text \<open>
  C9, as stated: for a node without a tag name the identifier would be
  \<open>unknown\<close> and \<open>logEvent\<close> would still produce a record. For a text node
  with the text \<open>hello\<close> the identifier is the quoted text, and \<open>logEvent\<close>
  throws when it reads the tag name, as in the \<open>dragstart\<close> listener when a
  selection of text is dragged.
\<close>

theorem unknown_fallback_counterexample:
  "getElementIdentifier (Some textNode) = ''\"hello\"''
   \<and> getElementType (Some textNode) = ''unknown''
   \<and> fst (logEvent 1000 ''drag_start'' (getElementType (Some textNode)) (Some textNode) []
            (loaded 0)) = Inl TypeError"
  by code_simp

text \<open>
  C9, amended: for an absent node the classifier and the identifier answer
  \<open>unknown\<close> and \<open>logEvent\<close> emits a record whose element fields are
  \<open>N/A\<close>. For a node without a tag name the classifier answers \<open>unknown\<close>,
  and the identifier answers \<open>unknown\<close> when the node has no id, class, name,
  data attribute or text either.
\<close>

theorem degrade_to_unknown:
  "getElementType None = ''unknown''
   \<and> getElementIdentifier None = ''unknown''
   \<and> (\<exists>rec. logEvent now ty obj None info w =
               (Inr rec, (touched now w)\<lparr>console := console w @ [rec]\<rparr>)
             \<and> element_identifier rec = ''N/A'' \<and> element_tag rec = ''N/A''
             \<and> element_path rec = ''N/A'')
   \<and> (tagName e = None \<longrightarrow> getElementType (Some (Node e par)) = ''unknown'')
   \<and> (tagName e = None \<and> \<not> truthy (id_prop e) \<and> classesOf (className e) = []
        \<and> \<not> truthy (name_prop e) \<and> dataAttrsOf (dataset e) = []
        \<and> \<not> truthy (textContent e)
      \<longrightarrow> getElementIdentifier (Some (Node e par)) = ''unknown'')"
  by (simp add: getElementType_def getElementIdentifier_def logEvent_def touched_def Let_def
      trim_def)

theorem degrade_to_unknown_witness:
  "getElementType (Some documentNode) = ''unknown''
   \<and> getElementIdentifier (Some documentNode) = ''unknown''
   \<and> map element_identifier (console (snd (logEvent 1000 ''text_selection'' ''text'' None []
         (loaded 0)))) = [''N/A'']"
proof -
  have h: "tagName (props documentNode) = None" "\<not> truthy (id_prop (props documentNode))"
    "classesOf (className (props documentNode)) = []" "\<not> truthy (name_prop (props documentNode))"
    "dataAttrsOf (dataset (props documentNode)) = []"
    "\<not> truthy (textContent (props documentNode))"
    by (simp_all add: documentNode_def blankProps_def classesOf_def dataAttrsOf_def)
  have d: "documentNode = Node (props documentNode) None"
    by (simp add: documentNode_def)
  have c: "console (loaded 0) = []" by code_simp
  from degrade_to_unknown [of 1000 "''text_selection''" "''text''" "[]" "loaded 0"
      "props documentNode" None] h d c
  show ?thesis by auto
qed

section \<open>Redaction of password fields, and keyboard records\<close>

lemma getElementType_value [simp]:
  "getElementType (Some (Node (e\<lparr>value_prop := s\<rparr>) par)) = getElementType (Some (Node e par))"
  by (simp add: getElementType_def Let_def)

lemma getElementIdentifier_value [simp]:
  "getElementIdentifier (Some (Node (e\<lparr>value_prop := s\<rparr>) par))
     = getElementIdentifier (Some (Node e par))"
  by (simp add: getElementIdentifier_def Let_def)

lemma getElementPath_value [simp]:
  "getElementPath b (Some (Node (e\<lparr>value_prop := s\<rparr>) par)) = getElementPath b (Some (Node e par))"
  by (simp add: getElementPath_def split: option.splits)

lemma logEvent_value:
  "logEvent now ty obj (Some (Node (e\<lparr>value_prop := s\<rparr>) par)) info w
     = logEvent now ty obj (Some (Node e par)) info w"
  by (simp add: logEvent_def Let_def cong: option.case_cong sum.case_cong)

text \<open>
  C3: a change signal on an element of type \<open>password\<close> emits one record whose
  payload property \<open>value\<close> is the mask \<open>***\<close>; and the outcome and the whole
  state after the handler are the same whatever the value of the element is.
\<close>

theorem change_password_masked:
  assumes "type_prop e = Some ''password''" and "loggable w (Some (Node e par))"
  shows "\<exists>rec. changeHandler now (Node e par) w =
             (Emitted rec, (touched now w)\<lparr>console := console w @ [rec]\<rparr>)
          \<and> type_of_event rec = ''change''
          \<and> payload rec ''value'' = Some (Str ''***'')
          \<and> changeHandler now (Node (e\<lparr>value_prop := secret\<rparr>) par) w
              = changeHandler now (Node e par) w"
proof -
  from logEvent_emits [OF assms(2)] obtain rec where
    r: "logEvent now ''change'' (getElementType (Some (Node e par))) (Some (Node e par))
          [(''value'', Str ''***''),
           (''checked'', case checked e of None \<Rightarrow> Undefined | Some b \<Rightarrow> Bool b),
           (''selected_index'', case selectedIndex e of None \<Rightarrow> Undefined | Some i \<Rightarrow> num i),
           (''selected_options'', case selectedOptions e of
                                      None \<Rightarrow> Undefined
                                    | Some opts \<Rightarrow> Arr (map Str opts))] w
        = (Inr rec, (touched now w)\<lparr>console := console w @ [rec]\<rparr>)"
    and ty: "type_of_event rec = ''change''"
    and ad: "additional rec = [(''value'', Str ''***''),
           (''checked'', case checked e of None \<Rightarrow> Undefined | Some b \<Rightarrow> Bool b),
           (''selected_index'', case selectedIndex e of None \<Rightarrow> Undefined | Some i \<Rightarrow> num i),
           (''selected_options'', case selectedOptions e of
                                      None \<Rightarrow> Undefined
                                    | Some opts \<Rightarrow> Arr (map Str opts))]"
    by blast
  have 1: "changeHandler now (Node e par) w =
             (Emitted rec, (touched now w)\<lparr>console := console w @ [rec]\<rparr>)"
    by (simp add: changeHandler_def Let_def assms(1) r)
  have 2: "payload rec ''value'' = Some (Str ''***'')"
    by (simp add: payload_def ad)
  have 3: "changeHandler now (Node (e\<lparr>value_prop := secret\<rparr>) par) w
              = changeHandler now (Node e par) w"
    by (simp add: changeHandler_def Let_def assms(1) logEvent_value)
  from 1 ty 2 3 show ?thesis by blast
qed


theorem change_password_masked_witness:
  "map (\<lambda>r. payload r ''value'') (console (snd (changeHandler 1000 passwordNode (loaded 0))))
     = [Some (Str ''***'')]
   \<and> changeHandler 1000 (Node ((props passwordNode)\<lparr>value_prop := Some ''swordfish''\<rparr>)
          (parentElement passwordNode)) (loaded 0)
       = changeHandler 1000 passwordNode (loaded 0)"
proof -
  have t: "type_prop (props passwordNode) = Some ''password''"
    by (simp add: passwordNode_def blankProps_def)
  have l: "loggable (loaded 0) (Some (Node (props passwordNode) (parentElement passwordNode)))"
    by code_simp
  have c: "console (loaded 0) = []" by code_simp
  from change_password_masked [OF t l, of 1000 "Some ''swordfish''"] c
  show ?thesis by auto
qed

text \<open>
  C10: with keyboard tracking enabled, a keydown signal emits one \<open>keyboard\<close>
  record whose payload has the pressed key and its code as they are in the
  event, whatever the target is; the witness types into the password field.
\<close>

theorem keydown_literal_key:
  assumes "trackKeyboard (CONFIG w)" and "loggable w (Some (k_target e))"
  shows "\<exists>rec. dispatch now (KeyDown e) w = (touched now w)\<lparr>console := console w @ [rec]\<rparr>
          \<and> type_of_event rec = ''keyboard''
          \<and> event_object rec = ''keydown''
          \<and> payload rec ''key'' = Some (Str (key e))
          \<and> payload rec ''code'' = Some (Str (code e))"
proof -
  from logEvent_emits [OF assms(2)] obtain rec where
    r: "logEvent now ''keyboard'' ''keydown'' (Some (k_target e))
          [(''key'', Str (key e)),
           (''code'', Str (code e)),
           (''key_code'', num (keyCode e)),
           (''ctrl_key'', Bool (k_ctrlKey e)),
           (''shift_key'', Bool (k_shiftKey e)),
           (''alt_key'', Bool (k_altKey e)),
           (''meta_key'', Bool (k_metaKey e)),
           (''repeat'', Bool (repeat e))] w
        = (Inr rec, (touched now w)\<lparr>console := console w @ [rec]\<rparr>)"
    and ty: "type_of_event rec = ''keyboard''" and ob: "event_object rec = ''keydown''"
    and ad: "additional rec = [(''key'', Str (key e)),
           (''code'', Str (code e)),
           (''key_code'', num (keyCode e)),
           (''ctrl_key'', Bool (k_ctrlKey e)),
           (''shift_key'', Bool (k_shiftKey e)),
           (''alt_key'', Bool (k_altKey e)),
           (''meta_key'', Bool (k_metaKey e)),
           (''repeat'', Bool (repeat e))]"
    by blast
  have "dispatch now (KeyDown e) w = (touched now w)\<lparr>console := console w @ [rec]\<rparr>"
    by (simp add: dispatch_def keydownHandler_def assms(1) r)
  moreover have "payload rec ''key'' = Some (Str (key e))"
    and "payload rec ''code'' = Some (Str (code e))"
    by (simp_all add: payload_def ad)
  ultimately show ?thesis using ty ob by blast
qed

theorem keydown_literal_key_witness:
  "map (\<lambda>r. (payload r ''key'', payload r ''code''))
     (console (dispatch 1000 (KeyDown (keyOn passwordNode ''h'' ''KeyH'' 72)) (loaded 0)))
     = [(Some (Str ''h''), Some (Str ''KeyH''))]"
proof -
  have t: "trackKeyboard (CONFIG (loaded 0))" by code_simp
  have l: "loggable (loaded 0) (Some (k_target (keyOn passwordNode ''h'' ''KeyH'' 72)))"
    by code_simp
  have c: "console (loaded 0) = []" by code_simp
  have k: "key (keyOn passwordNode ''h'' ''KeyH'' 72) = ''h''"
    "code (keyOn passwordNode ''h'' ''KeyH'' 72) = ''KeyH''"
    by (simp_all add: keyOn_def)
  from keydown_literal_key [OF t l, of 1000] c k
  show ?thesis by auto
qed

section \<open>Throttling of mouse movement\<close>

lemma loggable_bodyId: "bodyId w' = bodyId w \<Longrightarrow> loggable w' el = loggable w el"
proof (cases el)
  case None
  then show ?thesis by simp
next
  case (Some nd)
  assume "bodyId w' = bodyId w"
  with Some show ?thesis by (cases nd) simp
qed

lemma mousemove_dropped:
  assumes "now - lastMouseLog w \<le> mouseMoveThrottle (CONFIG w)"
  shows "fst (mousemoveHandler now e w) = Quiet"
    and "console (snd (mousemoveHandler now e w)) = console w"
    and "lastMouseLog (snd (mousemoveHandler now e w)) = lastMouseLog w"
    and "CONFIG (snd (mousemoveHandler now e w)) = CONFIG w"
  using assms by (simp_all add: mousemoveHandler_def Let_def)

lemma mouseMoves_dropped:
  "\<forall>te \<in> set tes. fst te - lastMouseLog w \<le> mouseMoveThrottle (CONFIG w)
   \<Longrightarrow> console (mouseMoves tes w) = console w"
proof (induction tes arbitrary: w)
  case Nil
  show ?case by (simp add: mouseMoves_def)
next
  case (Cons te tes)
  let ?w = "snd (mousemoveHandler (fst te) (snd te) w)"
  from Cons.prems have d: "fst te - lastMouseLog w \<le> mouseMoveThrottle (CONFIG w)" by simp
  have "\<forall>te' \<in> set tes. fst te' - lastMouseLog ?w \<le> mouseMoveThrottle (CONFIG ?w)"
    using Cons.prems by (simp add: mousemove_dropped [OF d])
  from Cons.IH [OF this] have "console (mouseMoves tes ?w) = console ?w" .
  then show ?case by (simp add: mouseMoves_def mousemove_dropped [OF d])
qed

text \<open>
  C4, as stated: the one record of a throttle interval would carry the data of
  the latest signal. With two mouse-move signals 100 ms apart, at (1, 1) and at
  (2, 2), the one record is emitted at the first signal and carries (1, 1); the
  second signal is dropped.
\<close>

theorem mousemove_latest_counterexample:
  "map (\<lambda>r. (type_of_event r, timestamp r, payload r ''coordinates''))
     (console (run [(1700000001000, MouseMove (mouseAt buttonNode 1 1)),
                    (1700000001100, MouseMove (mouseAt buttonNode 2 2))] (loaded 1700000000000)))
   = [(''mouse_move'', 1700000001000, Some (Obj [(''x'', num 1), (''y'', num 1)]))]"
  by code_simp

text \<open>
  C4, amended: a mouse-move signal that arrives more than \<open>mouseMoveThrottle\<close>
  after the last logged one emits one \<open>mouse_move\<close> record at once, carrying
  the coordinates of that signal; every further mouse-move signal within
  \<open>mouseMoveThrottle\<close> of it is dropped, so the interval has this one record.
  For two identical signals 100 ms apart the witness gives one record, with the
  time of the first signal and the coordinates both share.
\<close>

theorem mousemove_leading_edge:
  assumes "now - lastMouseLog w > mouseMoveThrottle (CONFIG w)"
    and "loggable w (Some (m_target e))"
    and "\<forall>te \<in> set later. fst te - now \<le> mouseMoveThrottle (CONFIG w)"
  shows "\<exists>rec w1. mousemoveHandler now e w = (Emitted rec, w1)
          \<and> console w1 = console w @ [rec]
          \<and> type_of_event rec = ''mouse_move''
          \<and> timestamp rec = now
          \<and> payload rec ''coordinates''
               = Some (Obj [(''x'', num (clientX e)), (''y'', num (clientY e))])
          \<and> console (mouseMoves later w1) = console w @ [rec]"
proof -
  define w0 where "w0 = w\<lparr>STATE := (STATE w)\<lparr>mouseTrail :=
      (if length (mouseTrail (STATE w) @ [(clientX e, clientY e, now)]) > 10
       then tl (mouseTrail (STATE w) @ [(clientX e, clientY e, now)])
       else mouseTrail (STATE w) @ [(clientX e, clientY e, now)])\<rparr>, lastMouseLog := now\<rparr>"
  define info where "info = [(''coordinates'', Obj [(''x'', num (clientX e)), (''y'', num (clientY e))]),
                   (''movement'', Obj [(''x'', num (movementX e)), (''y'', num (movementY e))]),
                   (''buttons'', num (buttons e))]"
  have b: "bodyId w0 = bodyId w" by (simp add: w0_def bodyId_def)
  have "loggable w0 (Some (m_target e))"
    using assms(2) by (simp add: loggable_bodyId [OF b])
  from logEvent_emits [OF this] obtain rec where
    r: "logEvent now ''mouse_move'' ''cursor'' (Some (m_target e)) info w0
        = (Inr rec, (touched now w0)\<lparr>console := console w0 @ [rec]\<rparr>)"
    and ty: "type_of_event rec = ''mouse_move''" and ts: "timestamp rec = now"
    and ad: "additional rec = info"
    by blast
  let ?w1 = "(touched now w0)\<lparr>console := console w0 @ [rec]\<rparr>"
  have 1: "mousemoveHandler now e w = (Emitted rec, ?w1)"
    using assms(1) r by (simp add: mousemoveHandler_def Let_def w0_def info_def)
  have 2: "console ?w1 = console w @ [rec]" by (simp add: w0_def)
  have 3: "payload rec ''coordinates''
               = Some (Obj [(''x'', num (clientX e)), (''y'', num (clientY e))])"
    by (simp add: payload_def ad info_def)
  have "lastMouseLog ?w1 = now" "CONFIG ?w1 = CONFIG w"
    by (simp_all add: w0_def touched_def)
  with assms(3) have "\<forall>te \<in> set later. fst te - lastMouseLog ?w1 \<le> mouseMoveThrottle (CONFIG ?w1)"
    by simp
  from mouseMoves_dropped [OF this] 2 have 4: "console (mouseMoves later ?w1) = console w @ [rec]"
    by simp
  from 1 2 ty ts 3 4 show ?thesis by blast
qed

theorem mousemove_leading_edge_witness:
  "map (\<lambda>r. (timestamp r, payload r ''coordinates''))
     (console (mouseMoves [(1700000001000, mouseAt buttonNode 7 9),
                           (1700000001100, mouseAt buttonNode 7 9)] (loaded 1700000000000)))
   = [(1700000001000, Some (Obj [(''x'', num 7), (''y'', num 9)]))]"
proof -
  have a: "1700000001000 - lastMouseLog (loaded 1700000000000)
             > mouseMoveThrottle (CONFIG (loaded 1700000000000))"
    by code_simp
  have l: "loggable (loaded 1700000000000) (Some (m_target (mouseAt buttonNode 7 9)))"
    by code_simp
  have d: "\<forall>te \<in> set [(1700000001100, mouseAt buttonNode 7 9)].
             fst te - 1700000001000 \<le> mouseMoveThrottle (CONFIG (loaded 1700000000000))"
    by code_simp
  have c: "console (loaded 1700000000000) = []" by code_simp
  have k: "clientX (mouseAt buttonNode 7 9) = 7" "clientY (mouseAt buttonNode 7 9) = 9"
    by (simp_all add: mouseAt_def)
  from mousemove_leading_edge [OF a l d] c k
  show ?thesis by (auto simp: mouseMoves_def)
qed

section \<open>Sequence numbers\<close>

text \<open>
  In every run of the tracker the numbers of the printed records increase
  strictly, so none is repeated, and they are at most the counter; when as many
  records were printed as \<open>logEvent\<close> was called, that is when no call threw,
  the numbers are 1, 2, ... without a gap.
\<close>

lemma numbered_STATE [simp]:
  "eventCount s = eventCount (STATE w) \<Longrightarrow> numbered (w\<lparr>STATE := s\<rparr>) = numbered w"
  by (simp add: numbered_def)

lemma numbered_timers [simp]: "numbered (w\<lparr>timers := ts\<rparr>) = numbered w"
  by (simp add: numbered_def)

lemma numbered_window [simp]: "numbered (w\<lparr>window := v\<rparr>) = numbered w"
  by (simp add: numbered_def)

lemma numbered_lastMouseLog [simp]: "numbered (w\<lparr>lastMouseLog := t\<rparr>) = numbered w"
  by (simp add: numbered_def)

lemma logEvent_numbered:
  assumes "numbered w"
  shows "numbered (snd (logEvent now ty obj el info w))"
proof -
  from assms have s: "sorted_wrt (<) (map event_number (console w))"
    and b: "\<forall>r \<in> set (console w). 1 \<le> event_number r \<and> event_number r \<le> eventCount (STATE w)"
    by (simp_all add: numbered_def list_all_iff)
  from logEvent_cases [of now ty obj el info w] show ?thesis
  proof
    assume "\<exists>rec. logEvent now ty obj el info w
               = (Inr rec, (touched now w)\<lparr>console := console w @ [rec]\<rparr>)
             \<and> type_of_event rec = ty \<and> event_number rec = eventCount (STATE w) + 1"
    then obtain rec where
      l: "logEvent now ty obj el info w = (Inr rec, (touched now w)\<lparr>console := console w @ [rec]\<rparr>)"
      and n: "event_number rec = eventCount (STATE w) + 1"
      by blast
    have "sorted_wrt (<) (map event_number (console w @ [rec]))"
      using s b n by (auto simp: sorted_wrt_append)
    moreover have "\<forall>r \<in> set (console w @ [rec]).
        1 \<le> event_number r \<and> event_number r \<le> eventCount (STATE w) + 1"
      using b n by auto
    ultimately show ?thesis
      by (simp add: l numbered_def list_all_iff touched_def)
  next
    assume "logEvent now ty obj el info w = (Inl TypeError, touched now w)"
    with s b show ?thesis
      by (auto simp: numbered_def list_all_iff touched_def)
  qed
qed

lemma resetIdleTimer_numbered: "numbered w \<Longrightarrow> numbered (snd (resetIdleTimer now w))"
  by (simp add: resetIdleTimer_def Let_def case_prod_beta clearTimer_def setTimer_def
      logEvent_numbered split: outcome.splits)

lemma clickHandler_numbered: "numbered w \<Longrightarrow> numbered (snd (clickHandler now e w))"
  by (simp add: clickHandler_def Let_def case_prod_beta logEvent_numbered)

lemma changeHandler_numbered: "numbered w \<Longrightarrow> numbered (snd (changeHandler now t w))"
  by (simp add: changeHandler_def Let_def case_prod_beta logEvent_numbered)

lemma keydownHandler_numbered: "numbered w \<Longrightarrow> numbered (snd (keydownHandler now e w))"
  by (simp add: keydownHandler_def Let_def case_prod_beta logEvent_numbered)

lemma keyupHandler_numbered: "numbered w \<Longrightarrow> numbered (snd (keyupHandler now e w))"
  by (simp add: keyupHandler_def Let_def case_prod_beta logEvent_numbered)

lemma dragstartHandler_numbered: "numbered w \<Longrightarrow> numbered (snd (dragstartHandler now t w))"
  by (simp add: dragstartHandler_def Let_def case_prod_beta logEvent_numbered)

lemma scrollHandler_numbered: "numbered w \<Longrightarrow> numbered (snd (scrollHandler now w))"
  by (simp add: scrollHandler_def Let_def clearTimer_def setTimer_def)

lemma scrollCallback_numbered: "numbered w \<Longrightarrow> numbered (snd (scrollCallback now w))"
  by (simp add: scrollCallback_def Let_def case_prod_beta logEvent_numbered)

lemma idleCallback_numbered: "numbered w \<Longrightarrow> numbered (snd (idleCallback now w))"
  by (simp add: idleCallback_def Let_def case_prod_beta logEvent_numbered)

lemma mousemoveHandler_numbered: "numbered w \<Longrightarrow> numbered (snd (mousemoveHandler now e w))"
  by (simp add: mousemoveHandler_def Let_def case_prod_beta logEvent_numbered)

lemma observeEntry_numbered: "numbered w \<Longrightarrow> numbered (snd (observeEntry now en w))"
  by (simp add: observeEntry_def Let_def case_prod_beta logEvent_numbered)

lemma observerCallback_numbered: "numbered w \<Longrightarrow> numbered (snd (observerCallback now ens w))"
proof (induction ens arbitrary: w)
  case Nil
  then show ?case by simp
next
  case (Cons en ens)
  obtain r w1 where o: "observeEntry now en w = (r, w1)" by (cases "observeEntry now en w")
  have 1: "numbered w1" using observeEntry_numbered [OF Cons.prems, of now en] o by simp
  show ?case
  proof (cases r)
    case (Threw err)
    with o 1 show ?thesis by simp
  next
    case (Emitted rec)
    with o Cons.IH [OF 1] show ?thesis by (simp add: case_prod_beta)
  next
    case Quiet
    with o Cons.IH [OF 1] show ?thesis by (simp add: case_prod_beta)
  qed
qed

lemma dispatch_numbered: "numbered w \<Longrightarrow> numbered (dispatch now sig w)"
  by (cases sig)
    (simp_all add: dispatch_def Let_def resetIdleTimer_numbered clickHandler_numbered
      changeHandler_numbered keydownHandler_numbered keyupHandler_numbered
      dragstartHandler_numbered scrollHandler_numbered mousemoveHandler_numbered
      observerCallback_numbered)

lemma runTimer_numbered: "numbered w \<Longrightarrow> numbered (runTimer dk w)"
  by (simp add: runTimer_def idleCallback_numbered scrollCallback_numbered split: timer.splits)

lemma fold_runTimer_numbered: "numbered w \<Longrightarrow> numbered (fold runTimer dks w)"
  by (induction dks arbitrary: w) (simp_all add: runTimer_numbered)

lemma step_numbered: "numbered w \<Longrightarrow> numbered (step ts w)"
  by (simp add: step_def fireDue_def dispatch_numbered fold_runTimer_numbered)

lemma run_numbered: "numbered w \<Longrightarrow> numbered (run tss w)"
  by (induction tss arbitrary: w) (simp_all add: run_def step_numbered)

lemma init_numbered: "numbered (init cfg t0 b v)"
proof -
  have "numbered \<lparr>CONFIG = cfg, STATE = STATE_init t0, lastMouseLog = 0, timers = [],
             console = [], body = b, window = v\<rparr>"
    by (simp add: numbered_def)
  then show ?thesis
    unfolding init_def by (rule resetIdleTimer_numbered)
qed

lemma increasing_complete:
  fixes xs :: "nat list"
  assumes "sorted_wrt (<) xs" and "set xs \<subseteq> {1..n}" and "length xs = n"
  shows "xs = [1..<Suc n]"
proof -
  have d: "distinct xs" using assms(1) by (simp add: strict_sorted_iff)
  then have "card (set xs) = n" using assms(3) by (simp add: distinct_card)
  with assms(2) have "set xs = {1..n}"
    by (simp add: card_subset_eq)
  moreover have "sorted xs" using assms(1) by (simp add: strict_sorted_iff)
  ultimately have "xs = sorted_list_of_set {1..n}"
    using d by (metis sorted_list_of_set.idem_if_sorted_distinct)
  also have "{1..n} = {1..<Suc n}" by auto
  finally show ?thesis by simp
qed

lemma event_numbers_increasing:
  "sorted_wrt (<) (map event_number (console (run tss (init cfg t0 b v))))"
  using run_numbered [OF init_numbered, of tss cfg t0 b v] by (simp add: numbered_def)

lemma event_numbers_without_throw:
  assumes "length (console (run tss (init cfg t0 b v)))
             = eventCount (STATE (run tss (init cfg t0 b v)))"
  shows "map event_number (console (run tss (init cfg t0 b v)))
           = [1..<Suc (length (console (run tss (init cfg t0 b v))))]"
proof -
  let ?w = "run tss (init cfg t0 b v)"
  from run_numbered [OF init_numbered, of tss cfg t0 b v]
  have s: "sorted_wrt (<) (map event_number (console ?w))"
    and b: "\<forall>r \<in> set (console ?w). 1 \<le> event_number r \<and> event_number r \<le> eventCount (STATE ?w)"
    by (simp_all add: numbered_def list_all_iff)
  from b assms have "set (map event_number (console ?w)) \<subseteq> {1..length (console ?w)}"
    by auto
  from increasing_complete [OF s this] show ?thesis by simp
qed

text \<open>
  C1 at a failing input: a selection of text is dragged, so \<open>dragstart\<close> has a
  text node as target, and then a button is clicked. \<open>logEvent\<close> counts the
  first call and throws before it prints; the only record printed has the
  number 2.
\<close>

theorem event_number_gap_after_throw:
  "map (\<lambda>r. (event_number r, type_of_event r))
     (console (run [(1700000000500, DragStart textNode),
                    (1700000001000, Click (mouseAt buttonNode 10 20))] (loaded 1700000000000)))
   = [(2, ''click'')]"
  by code_simp

section \<open>Idle and active\<close>

text \<open>
  Every call of \<open>logEvent\<close> clears the idle flag, also the call that reports
  \<open>user_idle\<close>. So the flag is never set when a listener starts, and no run of
  the tracker prints a \<open>user_active\<close> record.
\<close>

lemma silent_STATE [simp]: "silent (w\<lparr>STATE := s\<rparr>) = silent w"
  by (simp add: silent_def)

lemma silent_lastMouseLog [simp]: "silent (w\<lparr>lastMouseLog := t\<rparr>) = silent w"
  by (simp add: silent_def)

lemma quiet_silent: "quiet w \<Longrightarrow> silent w"
  by (simp add: quiet_def split: if_splits)

lemma logEvent_quiet:
  assumes "silent w" and "ty \<noteq> ''user_active''"
  shows "quiet (snd (logEvent now ty obj el info w))"
  using logEvent_cases [of now ty obj el info w] assms
  by (auto simp: quiet_def silent_def touched_def)

lemma quiet_timers [simp]: "quiet (w\<lparr>timers := ts\<rparr>) = quiet w"
  by (simp add: quiet_def silent_def)

lemma quiet_window [simp]: "quiet (w\<lparr>window := v\<rparr>) = quiet w"
  by (simp add: quiet_def silent_def)

lemma quiet_lastMouseLog [simp]: "quiet (w\<lparr>lastMouseLog := t\<rparr>) = quiet w"
  by (simp add: quiet_def silent_def)

lemma quiet_mouseTrail [simp]:
  "quiet (w\<lparr>STATE := (STATE w)\<lparr>mouseTrail := t\<rparr>\<rparr>) = quiet w"
  by (simp add: quiet_def)

lemma resetIdleTimer_quiet: "quiet w \<Longrightarrow> quiet (snd (resetIdleTimer now w))"
  by (simp add: resetIdleTimer_def Let_def clearTimer_def setTimer_def quiet_def silent_def
      split: if_splits)

lemma clickHandler_quiet: "quiet w \<Longrightarrow> quiet (snd (clickHandler now e w))"
  by (simp add: clickHandler_def Let_def case_prod_beta logEvent_quiet quiet_silent)

lemma changeHandler_quiet: "quiet w \<Longrightarrow> quiet (snd (changeHandler now t w))"
  by (simp add: changeHandler_def Let_def case_prod_beta logEvent_quiet quiet_silent)

lemma keydownHandler_quiet: "quiet w \<Longrightarrow> quiet (snd (keydownHandler now e w))"
  by (simp add: keydownHandler_def Let_def case_prod_beta logEvent_quiet quiet_silent)

lemma keyupHandler_quiet: "quiet w \<Longrightarrow> quiet (snd (keyupHandler now e w))"
  by (simp add: keyupHandler_def Let_def case_prod_beta logEvent_quiet quiet_silent)

lemma dragstartHandler_quiet: "quiet w \<Longrightarrow> quiet (snd (dragstartHandler now t w))"
  by (simp add: dragstartHandler_def Let_def case_prod_beta logEvent_quiet quiet_silent)

lemma scrollHandler_quiet: "quiet w \<Longrightarrow> quiet (snd (scrollHandler now w))"
  by (simp add: scrollHandler_def Let_def clearTimer_def setTimer_def)

lemma scrollCallback_quiet: "quiet w \<Longrightarrow> quiet (snd (scrollCallback now w))"
  by (simp add: scrollCallback_def Let_def case_prod_beta logEvent_quiet quiet_silent)

lemma idleCallback_quiet: "quiet w \<Longrightarrow> quiet (snd (idleCallback now w))"
  by (simp add: idleCallback_def Let_def case_prod_beta logEvent_quiet quiet_silent)

lemma mousemoveHandler_quiet: "quiet w \<Longrightarrow> quiet (snd (mousemoveHandler now e w))"
  by (simp add: mousemoveHandler_def Let_def case_prod_beta logEvent_quiet quiet_silent)

lemma observeEntry_quiet: "quiet w \<Longrightarrow> quiet (snd (observeEntry now en w))"
  by (simp add: observeEntry_def Let_def case_prod_beta logEvent_quiet quiet_silent)

lemma observerCallback_quiet: "quiet w \<Longrightarrow> quiet (snd (observerCallback now ens w))"
proof (induction ens arbitrary: w)
  case Nil
  then show ?case by simp
next
  case (Cons en ens)
  obtain r w1 where o: "observeEntry now en w = (r, w1)" by (cases "observeEntry now en w")
  have 1: "quiet w1" using observeEntry_quiet [OF Cons.prems, of now en] o by simp
  show ?case
  proof (cases r)
    case (Threw err)
    with o 1 show ?thesis by simp
  next
    case (Emitted rec)
    with o Cons.IH [OF 1] show ?thesis by (simp add: case_prod_beta)
  next
    case Quiet
    with o Cons.IH [OF 1] show ?thesis by (simp add: case_prod_beta)
  qed
qed

lemma dispatch_quiet: "quiet w \<Longrightarrow> quiet (dispatch now sig w)"
  by (cases sig)
    (simp_all add: dispatch_def Let_def resetIdleTimer_quiet clickHandler_quiet
      changeHandler_quiet keydownHandler_quiet keyupHandler_quiet dragstartHandler_quiet
      scrollHandler_quiet mousemoveHandler_quiet observerCallback_quiet)

lemma runTimer_quiet: "quiet w \<Longrightarrow> quiet (runTimer dk w)"
  by (simp add: runTimer_def idleCallback_quiet scrollCallback_quiet split: timer.splits)

lemma fold_runTimer_quiet: "quiet w \<Longrightarrow> quiet (fold runTimer dks w)"
  by (induction dks arbitrary: w) (simp_all add: runTimer_quiet)

lemma step_quiet: "quiet w \<Longrightarrow> quiet (step ts w)"
  by (simp add: step_def fireDue_def dispatch_quiet fold_runTimer_quiet)

lemma run_quiet: "quiet w \<Longrightarrow> quiet (run tss w)"
  by (induction tss arbitrary: w) (simp_all add: run_def step_quiet)

lemma init_quiet: "quiet (init cfg t0 b v)"
proof -
  have "quiet \<lparr>CONFIG = cfg, STATE = STATE_init t0, lastMouseLog = 0, timers = [],
             console = [], body = b, window = v\<rparr>"
    by (simp add: quiet_def silent_def STATE_init_def)
  then show ?thesis
    unfolding init_def by (rule resetIdleTimer_quiet)
qed

lemma user_active_never_emitted:
  "r \<in> set (console (run tss (init cfg t0 b v))) \<Longrightarrow> type_of_event r \<noteq> ''user_active''"
proof
  assume r: "r \<in> set (console (run tss (init cfg t0 b v)))" and t: "type_of_event r = ''user_active''"
  from run_quiet [OF init_quiet, of tss cfg t0 b v]
  have "''user_active'' \<notin> type_of_event ` set (console (run tss (init cfg t0 b v)))"
    by (simp add: quiet_def silent_def split: if_splits)
  moreover from r t have "''user_active'' \<in> type_of_event ` set (console (run tss (init cfg t0 b v)))"
    by (metis imageI)
  ultimately show False by contradiction
qed

text \<open>
  C2 at a failing input: the page is loaded, nothing happens for 31 seconds,
  then a button is clicked and a key is pressed. The idle timeout prints
  \<open>user_idle\<close> after 30 seconds; \<open>logEvent\<close> clears the idle flag that the
  callback has just set, so neither signal prints \<open>user_active\<close>.
\<close>

theorem idle_then_click_no_user_active:
  "map (\<lambda>r. (event_number r, type_of_event r, timestamp r))
     (console (run [(1700000031000, Click (mouseAt buttonNode 10 20)),
                    (1700000031500, KeyPress)] (loaded 1700000000000)))
   = [(1, ''user_idle'', 1700000030000), (2, ''click'', 1700000031000)]"
  by code_simp

section \<open>What a call of the logging function leaves unchanged\<close>

lemma logEvent_snd:
  "snd (logEvent now ty obj el info w)
     = (touched now w)\<lparr>console := console (snd (logEvent now ty obj el info w))\<rparr>"
  using logEvent_cases [of now ty obj el info w] by auto

lemma logEvent_STATE [simp]:
  "STATE (snd (logEvent now ty obj el info w)) = STATE (touched now w)"
  by (subst logEvent_snd) simp

lemma logEvent_CONFIG [simp]: "CONFIG (snd (logEvent now ty obj el info w)) = CONFIG w"
  by (subst logEvent_snd) (simp add: touched_def)

lemma logEvent_timers [simp]: "timers (snd (logEvent now ty obj el info w)) = timers w"
  by (subst logEvent_snd) (simp add: touched_def)

lemma logEvent_body [simp]: "body (snd (logEvent now ty obj el info w)) = body w"
  by (subst logEvent_snd) (simp add: touched_def)

lemma logEvent_lastMouseLog [simp]:
  "lastMouseLog (snd (logEvent now ty obj el info w)) = lastMouseLog w"
  by (subst logEvent_snd) (simp add: touched_def)

lemma touched_observed [simp]:
  "observedElements (STATE (touched now w)) = observedElements (STATE w)"
  by (simp add: touched_def)

lemma touched_isIdle [simp]: "\<not> isIdle (STATE (touched now w))"
  by (simp add: touched_def)

lemma touched_max [simp]: "maxScrollDepth (STATE (touched now w)) = maxScrollDepth (STATE w)"
  by (simp add: touched_def)

section \<open>Viewed elements\<close>

text \<open>No listener and no timeout callback takes an element out of the set of
  observed elements.\<close>

lemma resetIdleTimer_observed [simp]:
  "observedElements (STATE (snd (resetIdleTimer now w))) = observedElements (STATE w)"
  by (simp add: resetIdleTimer_def Let_def case_prod_beta clearTimer_def setTimer_def
      split: outcome.splits)

lemma clickHandler_observed [simp]:
  "observedElements (STATE (snd (clickHandler now e w))) = observedElements (STATE w)"
  by (simp add: clickHandler_def Let_def case_prod_beta)

lemma changeHandler_observed [simp]:
  "observedElements (STATE (snd (changeHandler now t w))) = observedElements (STATE w)"
  by (simp add: changeHandler_def Let_def case_prod_beta)

lemma keydownHandler_observed [simp]:
  "observedElements (STATE (snd (keydownHandler now e w))) = observedElements (STATE w)"
  by (simp add: keydownHandler_def Let_def case_prod_beta)

lemma keyupHandler_observed [simp]:
  "observedElements (STATE (snd (keyupHandler now e w))) = observedElements (STATE w)"
  by (simp add: keyupHandler_def Let_def case_prod_beta)

lemma dragstartHandler_observed [simp]:
  "observedElements (STATE (snd (dragstartHandler now t w))) = observedElements (STATE w)"
  by (simp add: dragstartHandler_def Let_def case_prod_beta)

lemma scrollHandler_observed [simp]:
  "observedElements (STATE (snd (scrollHandler now w))) = observedElements (STATE w)"
  by (simp add: scrollHandler_def Let_def clearTimer_def setTimer_def)

lemma scrollCallback_observed [simp]:
  "observedElements (STATE (snd (scrollCallback now w))) = observedElements (STATE w)"
  by (simp add: scrollCallback_def Let_def case_prod_beta)

lemma idleCallback_observed [simp]:
  "observedElements (STATE (snd (idleCallback now w))) = observedElements (STATE w)"
  by (simp add: idleCallback_def Let_def case_prod_beta)

lemma mousemoveHandler_observed [simp]:
  "observedElements (STATE (snd (mousemoveHandler now e w))) = observedElements (STATE w)"
  by (simp add: mousemoveHandler_def Let_def case_prod_beta)




lemma runTimer_observed [simp]:
  "observedElements (STATE (runTimer dk w)) = observedElements (STATE w)"
  by (simp add: runTimer_def split: timer.splits)

lemma fold_runTimer_observed [simp]:
  "observedElements (STATE (fold runTimer dks w)) = observedElements (STATE w)"
  by (induction dks arbitrary: w) simp_all




lemma viewCount_STATE [simp]: "viewCount (w\<lparr>STATE := s\<rparr>) = viewCount w"
  by (simp add: viewCount_def)

lemma viewCount_timers [simp]: "viewCount (w\<lparr>timers := ts\<rparr>) = viewCount w"
  by (simp add: viewCount_def)

lemma viewCount_window [simp]: "viewCount (w\<lparr>window := v\<rparr>) = viewCount w"
  by (simp add: viewCount_def)

lemma viewCount_lastMouseLog [simp]: "viewCount (w\<lparr>lastMouseLog := t\<rparr>) = viewCount w"
  by (simp add: viewCount_def)

lemma logEvent_viewCount:
  "ty \<noteq> ''view'' \<Longrightarrow> viewCount (snd (logEvent now ty obj el info w)) = viewCount w"
  using logEvent_cases [of now ty obj el info w]
  by (auto simp: viewCount_def touched_def)

lemma resetIdleTimer_viewCount [simp]:
  "viewCount (snd (resetIdleTimer now w)) = viewCount w"
  by (simp add: resetIdleTimer_def Let_def case_prod_beta clearTimer_def setTimer_def
      logEvent_viewCount split: outcome.splits)

lemma clickHandler_viewCount [simp]: "viewCount (snd (clickHandler now e w)) = viewCount w"
  by (simp add: clickHandler_def Let_def case_prod_beta logEvent_viewCount)

lemma changeHandler_viewCount [simp]: "viewCount (snd (changeHandler now t w)) = viewCount w"
  by (simp add: changeHandler_def Let_def case_prod_beta logEvent_viewCount)

lemma keydownHandler_viewCount [simp]: "viewCount (snd (keydownHandler now e w)) = viewCount w"
  by (simp add: keydownHandler_def Let_def case_prod_beta logEvent_viewCount)

lemma keyupHandler_viewCount [simp]: "viewCount (snd (keyupHandler now e w)) = viewCount w"
  by (simp add: keyupHandler_def Let_def case_prod_beta logEvent_viewCount)

lemma dragstartHandler_viewCount [simp]:
  "viewCount (snd (dragstartHandler now t w)) = viewCount w"
  by (simp add: dragstartHandler_def Let_def case_prod_beta logEvent_viewCount)

lemma scrollHandler_viewCount [simp]: "viewCount (snd (scrollHandler now w)) = viewCount w"
  by (simp add: scrollHandler_def Let_def clearTimer_def setTimer_def)

lemma scrollCallback_viewCount [simp]: "viewCount (snd (scrollCallback now w)) = viewCount w"
  by (simp add: scrollCallback_def Let_def case_prod_beta logEvent_viewCount)

lemma idleCallback_viewCount [simp]: "viewCount (snd (idleCallback now w)) = viewCount w"
  by (simp add: idleCallback_def Let_def case_prod_beta logEvent_viewCount)

lemma mousemoveHandler_viewCount [simp]:
  "viewCount (snd (mousemoveHandler now e w)) = viewCount w"
  by (simp add: mousemoveHandler_def Let_def case_prod_beta logEvent_viewCount)

lemma runTimer_viewCount [simp]: "viewCount (runTimer dk w) = viewCount w"
  by (simp add: runTimer_def split: timer.splits)

lemma fold_runTimer_viewCount [simp]: "viewCount (fold runTimer dks w) = viewCount w"
  by (induction dks arbitrary: w) simp_all

lemma fireDue_viewCount [simp]: "viewCount (fireDue t w) = viewCount w"
  by (simp add: fireDue_def)

lemma fireDue_observed [simp]:
  "observedElements (STATE (fireDue t w)) = observedElements (STATE w)"
  by (simp add: fireDue_def)








section \<open>Maximum scroll depth\<close>

lemma percentage_not_NaN [simp]: "scroll_percentage (getScrollInfo v) \<noteq> NaN"
proof (cases "mathRound (times100 (jsDiv (if pageYOffset v \<noteq> 0 then pageYOffset v
    else docScrollTop v) (of_int (scrollHeight v - innerHeight v))))")
  case NaN
  then show ?thesis by (simp add: getScrollInfo_def Let_def)
qed (simp_all add: getScrollInfo_def Let_def)

lemma jsLeq_refl [simp]: "jsLeq a a"
  by (simp add: jsLeq_def)

lemma jsLeq_trans: "jsLeq a b \<Longrightarrow> jsLeq b c \<Longrightarrow> jsLeq a c"
  by (cases a; cases b; cases c) (auto simp: jsLeq_def split: if_splits)

lemma jsMax_left: "jsLeq a (jsMax a b)"
  by (simp add: jsLeq_def jsMax_def)

lemma jsMax_right: "a \<noteq> NaN \<Longrightarrow> b \<noteq> NaN \<Longrightarrow> jsLeq b (jsMax a b)"
  by (cases a; cases b) (auto simp: jsLeq_def jsMax_def)

lemma jsMax_not_NaN: "a \<noteq> NaN \<Longrightarrow> jsMax a b \<noteq> NaN"
  by (cases a; cases b) (auto simp: jsMax_def)

lemma jsMax_cases: "jsMax a b = a \<or> jsMax a b = b"
  by (simp add: jsMax_def)

lemma scrollCallback_max:
  "maxScrollDepth (STATE (snd (scrollCallback now w)))
     = jsMax (maxScrollDepth (STATE w)) (scroll_percentage (getScrollInfo (window w)))"
  by (simp add: scrollCallback_def Let_def case_prod_beta jsMax_def)

lemma scrollAt_max:
  "maxScrollDepth (STATE (scrollAt tv w)) = jsMax (maxScrollDepth (STATE w)) (percentageOf tv)"
  by (simp add: scrollAt_def percentageOf_def scrollCallback_max)

lemma scrolls_max:
  assumes "maxScrollDepth (STATE w) \<noteq> NaN"
  shows "maxScrollDepth (STATE (fold scrollAt tvs w)) \<noteq> NaN
       \<and> maxScrollDepth (STATE (fold scrollAt tvs w))
           \<in> set (maxScrollDepth (STATE w) # map percentageOf tvs)
       \<and> (\<forall>p \<in> set (maxScrollDepth (STATE w) # map percentageOf tvs).
             jsLeq p (maxScrollDepth (STATE (fold scrollAt tvs w))))"
  using assms
proof (induction tvs arbitrary: w)
  case Nil
  then show ?case by simp
next
  case (Cons tv tvs)
  let ?w = "scrollAt tv w"
  have n: "maxScrollDepth (STATE ?w) \<noteq> NaN"
    using Cons.prems by (simp add: scrollAt_max jsMax_not_NaN)
  have pn: "percentageOf tv \<noteq> NaN" by (simp add: percentageOf_def)
  note ih = Cons.IH [OF n]
  have l: "jsLeq (maxScrollDepth (STATE w)) (maxScrollDepth (STATE ?w))"
    by (simp add: scrollAt_max jsMax_left)
  have r: "jsLeq (percentageOf tv) (maxScrollDepth (STATE ?w))"
    using Cons.prems pn by (simp add: scrollAt_max jsMax_right)
  have top: "jsLeq (maxScrollDepth (STATE ?w)) (maxScrollDepth (STATE (fold scrollAt tvs ?w)))"
    using ih by simp
  have m: "maxScrollDepth (STATE ?w) = maxScrollDepth (STATE w)
           \<or> maxScrollDepth (STATE ?w) = percentageOf tv"
    by (simp add: scrollAt_max jsMax_cases)
  show ?case
    using ih m jsLeq_trans [OF l top] jsLeq_trans [OF r top] by auto
qed


text \<open>
  C6, as stated: the maximum depth would always be the largest percentage seen.
  It starts at 0, so after one scroll computation with the negative offset -50
  (an overscroll at the top of the page), whose percentage is -10, the maximum
  depth is 0.
\<close>

theorem max_scroll_depth_counterexample:
  "percentageOf (1700000001000, geometry (- 50) 1000 500) = Fin (- 10)
   \<and> maxScrollDepth (STATE (fold scrollAt [(1700000001000, geometry (- 50) 1000 500)]
         (loaded 1700000000000))) = Fin 0"
  by code_simp

text \<open>
  C6, amended: from a state where the maximum depth is 0, as at load, after any
  sequence of scroll computations the maximum depth is the largest of 0 and the
  percentages computed; one more computation never lowers it; and the record a
  computation emits carries, as \<open>max_scroll_depth\<close> of its session snapshot, the
  maximum already updated with the percentage of this record.
\<close>

theorem max_scroll_depth_running_maximum:
  assumes "maxScrollDepth (STATE w) = Fin 0" and "loggable w' (body w')"
  shows "maxScrollDepth (STATE (fold scrollAt tvs w)) \<in> set (Fin 0 # map percentageOf tvs)
       \<and> (\<forall>p \<in> set (Fin 0 # map percentageOf tvs).
             jsLeq p (maxScrollDepth (STATE (fold scrollAt tvs w))))
       \<and> jsLeq (maxScrollDepth (STATE (fold scrollAt tvs w)))
            (maxScrollDepth (STATE (scrollAt tv (fold scrollAt tvs w))))
       \<and> (\<exists>rec. fst (scrollCallback now w') = Emitted rec
             \<and> type_of_event rec = ''scroll''
             \<and> payload rec ''scroll_percentage''
                  = Some (Num (scroll_percentage (getScrollInfo (window w'))))
             \<and> max_scroll_depth (session rec)
                  = jsMax (maxScrollDepth (STATE w')) (scroll_percentage (getScrollInfo (window w')))
             \<and> max_scroll_depth (session rec)
                  = maxScrollDepth (STATE (snd (scrollCallback now w'))))"
proof -
  have n: "maxScrollDepth (STATE w) \<noteq> NaN" using assms(1) by simp
  from scrolls_max [OF n, of tvs] assms(1)
  have 1: "maxScrollDepth (STATE (fold scrollAt tvs w)) \<in> set (Fin 0 # map percentageOf tvs)"
    and 2: "\<forall>p \<in> set (Fin 0 # map percentageOf tvs).
             jsLeq p (maxScrollDepth (STATE (fold scrollAt tvs w)))"
    by simp_all
  have 3: "jsLeq (maxScrollDepth (STATE (fold scrollAt tvs w)))
            (maxScrollDepth (STATE (scrollAt tv (fold scrollAt tvs w))))"
    by (simp add: scrollAt_max jsMax_left)
  define st where "st = (if jsGreater (scroll_percentage (getScrollInfo (window w')))
                              (maxScrollDepth (STATE w'))
                 then (STATE w')\<lparr>scrollDepth := scroll_percentage (getScrollInfo (window w')),
                                  maxScrollDepth := scroll_percentage (getScrollInfo (window w'))\<rparr>
                 else (STATE w')\<lparr>scrollDepth := scroll_percentage (getScrollInfo (window w'))\<rparr>)"
  have b: "bodyId (w'\<lparr>STATE := st\<rparr>) = bodyId w'" by (simp add: bodyId_def)
  have "loggable (w'\<lparr>STATE := st\<rparr>) (body w')"
    using assms(2) by (simp add: loggable_bodyId [OF b])
  from logEvent_emits [OF this] obtain rec where
    r: "logEvent now ''scroll'' ''page'' (body w')
          (scrollInfoPayload (getScrollInfo (window w'))) (w'\<lparr>STATE := st\<rparr>)
        = (Inr rec, (touched now (w'\<lparr>STATE := st\<rparr>))\<lparr>console :=
             console (w'\<lparr>STATE := st\<rparr>) @ [rec]\<rparr>)"
    and ty: "type_of_event rec = ''scroll''"
    and ad: "additional rec = scrollInfoPayload (getScrollInfo (window w'))"
    and mx: "max_scroll_depth (session rec) = maxScrollDepth (STATE (w'\<lparr>STATE := st\<rparr>))"
    by blast
  have 4: "fst (scrollCallback now w') = Emitted rec"
    using r by (simp add: scrollCallback_def Let_def st_def)
  have 5: "payload rec ''scroll_percentage''
             = Some (Num (scroll_percentage (getScrollInfo (window w'))))"
    by (simp add: payload_def ad scrollInfoPayload_def)
  have 6: "max_scroll_depth (session rec)
             = jsMax (maxScrollDepth (STATE w')) (scroll_percentage (getScrollInfo (window w')))"
    by (simp add: mx st_def jsMax_def)
  have 7: "max_scroll_depth (session rec) = maxScrollDepth (STATE (snd (scrollCallback now w')))"
    by (simp add: 6 scrollCallback_max)
  from 1 2 3 4 ty 5 6 7 show ?thesis by blast
qed

theorem max_scroll_depth_running_maximum_witness:
  "maxScrollDepth (STATE (fold scrollAt [(1700000001000, geometry 250 1000 500),
                                          (1700000002000, geometry 100 1000 500)]
                            (loaded 1700000000000))) = Fin 50
   \<and> map (\<lambda>r. (payload r ''scroll_percentage'', max_scroll_depth (session r)))
       (console (fold scrollAt [(1700000001000, geometry 250 1000 500),
                                (1700000002000, geometry 100 1000 500)]
                   (loaded 1700000000000)))
     = [(Some (Num (Fin 50)), Fin 50), (Some (Num (Fin 20)), Fin 50)]"
proof -
  have a: "maxScrollDepth (STATE (loaded 1700000000000)) = Fin 0" by code_simp
  have l: "loggable (loaded 1700000000000) (body (loaded 1700000000000))" by code_simp
  have p: "percentageOf (1700000001000, geometry 250 1000 500) = Fin 50"
    "percentageOf (1700000002000, geometry 100 1000 500) = Fin 20"
    by code_simp+
  define m where "m = maxScrollDepth (STATE (fold scrollAt
      [(1700000001000, geometry 250 1000 500), (1700000002000, geometry 100 1000 500)]
      (loaded 1700000000000)))"
  from max_scroll_depth_running_maximum [OF a l,
      of "[(1700000001000, geometry 250 1000 500), (1700000002000, geometry 100 1000 500)]"]
  have "m \<in> set (Fin 0 # map percentageOf
           [(1700000001000, geometry 250 1000 500), (1700000002000, geometry 100 1000 500)])"
    and "\<forall>p \<in> set (Fin 0 # map percentageOf
           [(1700000001000, geometry 250 1000 500), (1700000002000, geometry 100 1000 500)]).
           jsLeq p m"
    unfolding m_def by blast+
  then have "m = Fin 0 \<or> m = Fin 50 \<or> m = Fin 20" and "jsLeq (Fin 50) m"
    by (simp_all add: p)
  then have "m = Fin 50" by (auto simp: jsLeq_def)
  then have "maxScrollDepth (STATE (fold scrollAt [(1700000001000, geometry 250 1000 500),
                                          (1700000002000, geometry 100 1000 500)]
                            (loaded 1700000000000))) = Fin 50"
    by (simp add: m_def)
  moreover have "map (\<lambda>r. (payload r ''scroll_percentage'', max_scroll_depth (session r)))
       (console (fold scrollAt [(1700000001000, geometry 250 1000 500),
                                (1700000002000, geometry 100 1000 500)]
                   (loaded 1700000000000)))
     = [(Some (Num (Fin 50)), Fin 50), (Some (Num (Fin 20)), Fin 50)]"
    by code_simp
  ultimately show ?thesis by blast
qed

end
